theory Spec2Isabelle
  imports Complex_Main "HOL-Library.Char_ord" "HOL-Library.List_Lexorder"
begin

section \<open>Python values the pipeline relies on\<close>

text \<open>
  Exceptions are values: every function of the model that can raise returns
  \<open>py_error + 'a\<close>, with \<open>Inl\<close> for the exception that leaves the function.
\<close>

datatype py_error =
    AssertionError
  | IndexError
  | KeyError
  | ValueError
  | TypeError
  | FileNotFoundError
  | ZeroDivisionError
  | RuntimeError

text \<open>
  \<open>xs[i]\<close> on a Python list: a negative index counts from the end, an index out of
  range raises \<open>IndexError\<close>.
\<close>

definition py_index :: "'a list \<Rightarrow> int \<Rightarrow> py_error + 'a" where
  "py_index xs i =
     (if 0 \<le> i \<and> i < int (length xs) then Inr (xs ! nat i)
      else if i < 0 \<and> - int (length xs) \<le> i then Inr (xs ! nat (int (length xs) + i))
      else Inl IndexError)"

text \<open>
  \<open>a[y]\<close> on a numpy array with an array \<open>y\<close> of non-negative indices: the elements at
  those positions in the order of \<open>y\<close>, \<open>IndexError\<close> when one is out of bounds.
\<close>

definition np_take :: "'a list \<Rightarrow> nat list \<Rightarrow> py_error + 'a list" where
  "np_take xs ys =
     (if list_all (\<lambda>i. i < length xs) ys then Inr (map (\<lambda>i. xs ! i) ys) else Inl IndexError)"

subsection \<open>posixpath\<close>

definition sep :: char where
  "sep = CHR ''/''"

definition extsep :: char where
  "extsep = CHR ''.''"

text \<open>\<open>os.path.basename\<close>: what follows the last separator.\<close>

definition basename :: "string \<Rightarrow> string" where
  "basename p = rev (takeWhile (\<lambda>c. c \<noteq> sep) (rev p))"

text \<open>
  \<open>os.path.dirname\<close>: the path up to and including the last separator, with the trailing
  separators stripped unless the head consists of separators only.
\<close>

definition dirname :: "string \<Rightarrow> string" where
  "dirname p =
     (let head = rev (dropWhile (\<lambda>c. c \<noteq> sep) (rev p))
      in if head \<noteq> [] \<and> \<not> list_all (\<lambda>c. c = sep) head
         then rev (dropWhile (\<lambda>c. c = sep) (rev head))
         else head)"

text \<open>
  \<open>os.path.splitext\<close>: the extension starts at the last dot of the last component,
  unless only dots precede it there.
\<close>

definition splitext :: "string \<Rightarrow> string \<times> string" where
  "splitext p =
     (let b = basename p;
          ext_tail = rev (takeWhile (\<lambda>c. c \<noteq> extsep) (rev b));
          stem = take (length b - length ext_tail - 1) b
      in if extsep \<in> set b \<and> \<not> list_all (\<lambda>c. c = extsep) stem
         then (take (length p - length ext_tail - 1) p, extsep # ext_tail)
         else (p, []))"

text \<open>\<open>os.path.join\<close> of two components.\<close>

definition path_join :: "string \<Rightarrow> string \<Rightarrow> string" where
  "path_join a b =
     (if b \<noteq> [] \<and> hd b = sep then b
      else if a = [] \<or> last a = sep then a @ b
      else a @ sep # b)"

text \<open>\<open>str.lower\<close> on ASCII text.\<close>

definition lower_char :: "char \<Rightarrow> char" where
  "lower_char c =
     (let n = (of_char c :: nat) in if 65 \<le> n \<and> n \<le> 90 then char_of (n + 32) else c)"

definition lower :: "string \<Rightarrow> string" where
  "lower s = map lower_char s"

subsection \<open>Arrays\<close>

text \<open>
  An image or a label mask is a numpy array of shape \<open>(H, W, C)\<close>: a list of rows, each a
  list of pixels, each a list of channel values.
\<close>

type_synonym 'a array3 = "'a list list list"

definition shape0 :: "'a array3 \<Rightarrow> nat" where
  "shape0 a = length a"

definition shape2 :: "'a array3 \<Rightarrow> nat" where
  "shape2 a = (case a of [] \<Rightarrow> 0 | r # _ \<Rightarrow> (case r of [] \<Rightarrow> 0 | px # _ \<Rightarrow> length px))"

text \<open>
  \<open>a[y:y + w, x:x + w, :]\<close> with non-negative bounds: slicing clips at the end of the
  array and never raises.
\<close>

definition crop :: "nat \<Rightarrow> nat \<Rightarrow> nat \<Rightarrow> 'a array3 \<Rightarrow> 'a array3" where
  "crop y x w a = map (\<lambda>row. take w (drop x row)) (take w (drop y a))"

text \<open>\<open>a.transpose(2, 0, 1)\<close>: channel first.\<close>

definition transpose_201 :: "'a array3 \<Rightarrow> 'a array3" where
  "transpose_201 a = map (\<lambda>c. map (\<lambda>row. map (\<lambda>px. px ! c) row) a) [0..<shape2 a]"

text \<open>
  \<open>torch.from_numpy(a).float()\<close>: the same layout, every element cast to single
  precision by \<open>f32\<close>, which the model leaves open.
\<close>

definition from_numpy_float :: "('a \<Rightarrow> 'b) \<Rightarrow> 'a array3 \<Rightarrow> 'b array3" where
  "from_numpy_float f32 a = map (map (map f32)) a"

section \<open>data/dataset.py\<close>

text \<open>
  The fields of the configuration object the two modules read. An attribute that the code
  tests with \<open>hasattr\<close> is optional; \<open>TRAIN_SWA_START\<close> is \<open>config.TRAIN.SWA.START\<close>, present
  when \<open>config.TRAIN\<close> has the attribute \<open>SWA\<close>.
\<close>

record config =
  DATA_IMAGE_ROOT :: string
  DATA_LABEL_ROOT :: string
  DATA_CLASSES :: "string list"
  TRAIN_VAL_NUM :: "int option"
  TRAIN_SLIDING_WINDOW :: bool
  TRAIN_FP16 :: bool
  TRAIN_ACCUMULATION_STEPS :: "int option"
  TRAIN_EPOCHS :: nat
  TRAIN_VAL_EVERY :: int
  TRAIN_SWA_START :: "int option"

text \<open>
  The albumentations pipeline is a callable taking the image and, when training, the
  mask; it returns the keys it was given.
\<close>

type_synonym transform =
  "real array3 \<Rightarrow> real array3 option \<Rightarrow> py_error + (real array3 \<times> real array3 option)"

text \<open>
  What the class reads from outside the program:
  \<^item> the relative paths of the files \<open>os.walk\<close> finds under the two roots;
  \<^item> \<open>GroupKFold(n_splits=5).split(X, y, groups)\<close> of scikit-learn, the list of
    (train indices, test indices) it yields, or the exception it raises;
  \<^item> \<open>cv2.imread\<close>, the annotations of a label file and \<open>cv2.fillPoly\<close> on a zero mask
    of a given height and width;
  \<^item> the cast to single precision.
\<close>

record environment =
  walk_image_root :: "string list"
  walk_label_root :: "string list"
  gkf_split :: "string list \<Rightarrow> nat list \<Rightarrow> string list \<Rightarrow> py_error + (nat list \<times> nat list) list"
  imread :: "string \<Rightarrow> real array3 option"
  load_annotations :: "string \<Rightarrow> py_error + (string \<times> (int \<times> int) list) list"
  fillPoly :: "nat \<Rightarrow> nat \<Rightarrow> (int \<times> int) list \<Rightarrow> real list list"
  f32 :: "real \<Rightarrow> real"

text \<open>The cache directory: the arrays stored under each path.\<close>

type_synonym npz_store = "string \<rightharpoonup> real array3"

record XRayDataset =
  is_train :: bool
  transforms :: "transform option"
  use_pickle :: bool
  pickle_dir :: string
  config :: config
  CLASS2IND :: "string \<rightharpoonup> nat"
  IND2CLASS :: "nat \<rightharpoonup> string"
  filenames :: "string list"
  labelnames :: "string list"

text \<open>\<open>{v: i for i, v in enumerate(CLASSES)}\<close>: a later duplicate overwrites.\<close>

definition class2ind :: "string list \<Rightarrow> (string \<rightharpoonup> nat)" where
  "class2ind cs = fold (\<lambda>(i, v) m. m(v \<mapsto> i)) (enumerate 0 cs) Map.empty"

text \<open>\<open>{v: k for k, v in CLASS2IND.items()}\<close>: one entry per key of \<open>CLASS2IND\<close>.\<close>

definition ind2class :: "string list \<Rightarrow> (nat \<rightharpoonup> string)" where
  "ind2class cs =
     (\<lambda>i. if i < length cs \<and> class2ind cs (cs ! i) = Some i then Some (cs ! i) else None)"

definition pngs :: "environment \<Rightarrow> string set" where
  "pngs env =
     set (filter (\<lambda>p. lower (snd (splitext (basename p))) = ''.png'') (walk_image_root env))"

definition jsons :: "environment \<Rightarrow> string set" where
  "jsons env =
     set (filter (\<lambda>p. lower (snd (splitext (basename p))) = ''.json'') (walk_label_root env))"

definition jsons_fn_prefix :: "environment \<Rightarrow> string set" where
  "jsons_fn_prefix env = (\<lambda>fname. fst (splitext fname)) ` jsons env"

definition pngs_fn_prefix :: "environment \<Rightarrow> string set" where
  "pngs_fn_prefix env = (\<lambda>fname. fst (splitext fname)) ` pngs env"

text \<open>The two assertions of the constructor, in their order.\<close>

definition check_prefixes :: "environment \<Rightarrow> py_error + unit" where
  "check_prefixes env =
     (if card (jsons_fn_prefix env - pngs_fn_prefix env) \<noteq> 0 then Inl AssertionError
      else if card (pngs_fn_prefix env - jsons_fn_prefix env) \<noteq> 0 then Inl AssertionError
      else Inr ())"

definition val_num :: "config \<Rightarrow> int" where
  "val_num cfg = (case TRAIN_VAL_NUM cfg of Some v \<Rightarrow> v | None \<Rightarrow> 0)"

text \<open>
  The loop over the folds. \<open>i\<close> is the index \<open>enumerate\<close> gives, the accumulator the pair
  \<open>(filenames, labelnames)\<close>. When training, fold \<open>val_num\<close> is skipped and the test part
  of every other fold is appended; otherwise the test part of fold \<open>val_num\<close> replaces the
  lists and the loop breaks.
\<close>

fun select_folds ::
  "bool \<Rightarrow> int \<Rightarrow> string list \<Rightarrow> string list \<Rightarrow> nat \<Rightarrow> (nat list \<times> nat list) list \<Rightarrow>
   string list \<times> string list \<Rightarrow> py_error + (string list \<times> string list)" where
  "select_folds train vn fs ls i [] acc = Inr acc"
| "select_folds train vn fs ls i ((x, y) # rest) (fnames, lnames) =
     (if train then
        (if int i = vn then select_folds train vn fs ls (Suc i) rest (fnames, lnames)
         else
           (case np_take fs y of
              Inl e \<Rightarrow> Inl e
            | Inr fy \<Rightarrow>
                (case np_take ls y of
                   Inl e \<Rightarrow> Inl e
                 | Inr ly \<Rightarrow> select_folds train vn fs ls (Suc i) rest (fnames @ fy, lnames @ ly))))
      else
        (if int i = vn then
           (case np_take fs y of
              Inl e \<Rightarrow> Inl e
            | Inr fy \<Rightarrow> (case np_take ls y of Inl e \<Rightarrow> Inl e | Inr ly \<Rightarrow> Inr (fy, ly)))
         else select_folds train vn fs ls (Suc i) rest (fnames, lnames)))"

text \<open>\<open>label[..., class_ind] = class_label\<close>.\<close>

definition set_channel :: "nat \<Rightarrow> real list list \<Rightarrow> real array3 \<Rightarrow> real array3" where
  "set_channel k m a =
     map (\<lambda>(r, row). map (\<lambda>(c, px). px[k := m ! r ! c]) (enumerate 0 row)) (enumerate 0 a)"

fun draw_annotations ::
  "environment \<Rightarrow> (string \<rightharpoonup> nat) \<Rightarrow> nat \<Rightarrow> nat \<Rightarrow> (string \<times> (int \<times> int) list) list \<Rightarrow>
   real array3 \<Rightarrow> py_error + real array3" where
  "draw_annotations env c2i h w [] label = Inr label"
| "draw_annotations env c2i h w ((c, points) # anns) label =
     (case c2i c of
        None \<Rightarrow> Inl KeyError
      | Some class_ind \<Rightarrow>
          draw_annotations env c2i h w anns (set_channel class_ind (fillPoly env h w points) label))"

definition create_data ::
  "environment \<Rightarrow> config \<Rightarrow> (string \<rightharpoonup> nat) \<Rightarrow> string \<Rightarrow> string \<Rightarrow>
   py_error + (real array3 \<times> real array3)" where
  "create_data env cfg c2i image_name label_name =
     (case imread env (path_join (DATA_IMAGE_ROOT cfg) image_name) of
        None \<Rightarrow> Inl TypeError
      | Some raw \<Rightarrow>
          (let img = map (map (map (\<lambda>v. v / 255))) raw;
               h = length img;
               w = (case img of [] \<Rightarrow> 0 | r # _ \<Rightarrow> length r);
               label = replicate h (replicate w (replicate (length (DATA_CLASSES cfg)) 0))
           in case load_annotations env (path_join (DATA_LABEL_ROOT cfg) label_name) of
                Inl e \<Rightarrow> Inl e
              | Inr annotations \<Rightarrow>
                  (case draw_annotations env c2i h w annotations label of
                     Inl e \<Rightarrow> Inl e
                   | Inr label' \<Rightarrow> Inr (img, label'))))"

definition image_npy_path :: "string \<Rightarrow> string \<Rightarrow> string" where
  "image_npy_path pdir image_name = path_join pdir (basename image_name @ ''_image.npz'')"

definition label_npy_path :: "string \<Rightarrow> string \<Rightarrow> string" where
  "label_npy_path pdir image_name = path_join pdir (basename image_name @ ''_label.npz'')"

text \<open>
  The loop that fills the cache: a pair whose image file is absent is created and both
  its arrays are stored.
\<close>

fun build_cache ::
  "environment \<Rightarrow> config \<Rightarrow> (string \<rightharpoonup> nat) \<Rightarrow> string \<Rightarrow> (string \<times> string) list \<Rightarrow>
   npz_store \<Rightarrow> py_error + npz_store" where
  "build_cache env cfg c2i pdir [] store = Inr store"
| "build_cache env cfg c2i pdir ((image_name, label_name) # rest) store =
     (if store (image_npy_path pdir image_name) = None then
        (case create_data env cfg c2i image_name label_name of
           Inl e \<Rightarrow> Inl e
         | Inr data \<Rightarrow>
             build_cache env cfg c2i pdir rest
               (store(image_npy_path pdir image_name \<mapsto> fst data,
                      label_npy_path pdir image_name \<mapsto> snd data)))
      else build_cache env cfg c2i pdir rest store)"

text \<open>\<open>[item for item in filenames for _ in range(9)]\<close>.\<close>

definition sliding_names :: "string list \<Rightarrow> string list" where
  "sliding_names names = concat (map (replicate 9) names)"

text \<open>The folds selected by the constructor, before the cache and the expansion.\<close>

definition selected ::
  "environment \<Rightarrow> config \<Rightarrow> bool \<Rightarrow> py_error + (string list \<times> string list)" where
  "selected env cfg train =
     (case check_prefixes env of
        Inl e \<Rightarrow> Inl e
      | Inr _ \<Rightarrow>
          (let fs = sorted_list_of_set (pngs env);
               ls = sorted_list_of_set (jsons env);
               groups = map dirname fs;
               ys = map (\<lambda>fname. 0) fs
           in case gkf_split env fs ys groups of
                Inl e \<Rightarrow> Inl e
              | Inr folds \<Rightarrow> select_folds train (val_num cfg) fs ls 0 folds ([], [])))"

definition XRayDataset_init ::
  "environment \<Rightarrow> npz_store \<Rightarrow> bool \<Rightarrow> transform option \<Rightarrow> bool \<Rightarrow> string \<Rightarrow> config \<Rightarrow>
   py_error + (XRayDataset \<times> npz_store)" where
  "XRayDataset_init env store train tf pickle pdir cfg =
     (case selected env cfg train of
        Inl e \<Rightarrow> Inl e
      | Inr (fnames, lnames) \<Rightarrow>
          (case (if pickle
                 then build_cache env cfg (class2ind (DATA_CLASSES cfg)) pdir (zip fnames lnames) store
                 else Inr store) of
             Inl e \<Rightarrow> Inl e
           | Inr store' \<Rightarrow>
               Inr (\<lparr> is_train = train, transforms = tf, use_pickle = pickle, pickle_dir = pdir,
                      config = cfg,
                      CLASS2IND = class2ind (DATA_CLASSES cfg),
                      IND2CLASS = ind2class (DATA_CLASSES cfg),
                      filenames = (if TRAIN_SLIDING_WINDOW cfg then sliding_names fnames else fnames),
                      labelnames = (if TRAIN_SLIDING_WINDOW cfg then sliding_names fnames else lnames) \<rparr>,
                    store')))"

definition XRayDataset_len :: "XRayDataset \<Rightarrow> nat" where
  "XRayDataset_len ds = length (filenames ds)"

text \<open>The call of the transforms in \<open>__getitem__\<close>.\<close>

definition apply_transforms ::
  "XRayDataset \<Rightarrow> real array3 \<Rightarrow> real array3 \<Rightarrow> py_error + (real array3 \<times> real array3)" where
  "apply_transforms ds img label =
     (case transforms ds of
        None \<Rightarrow> Inr (img, label)
      | Some t \<Rightarrow>
          (case t img (if is_train ds then Some label else None) of
             Inl e \<Rightarrow> Inl e
           | Inr (img', m) \<Rightarrow>
               (if is_train ds
                then (case m of None \<Rightarrow> Inl KeyError | Some label' \<Rightarrow> Inr (img', label'))
                else Inr (img', label))))"

definition window_size :: "'a array3 \<Rightarrow> nat" where
  "window_size img = shape0 img div 2"

definition stride :: "'a array3 \<Rightarrow> nat" where
  "stride img = window_size img div 2"

definition window_x :: "'a array3 \<Rightarrow> int \<Rightarrow> nat" where
  "window_x img item = nat ((item mod 9) mod 3) * stride img"

definition window_y :: "'a array3 \<Rightarrow> int \<Rightarrow> nat" where
  "window_y img item = nat ((item mod 9) div 3) * stride img"

definition sliding_window ::
  "XRayDataset \<Rightarrow> int \<Rightarrow> real array3 \<times> real array3 \<Rightarrow> real array3 \<times> real array3" where
  "sliding_window ds item p =
     (if TRAIN_SLIDING_WINDOW (config ds)
      then (crop (window_y (fst p) item) (window_x (fst p) item) (window_size (fst p)) (fst p),
            crop (window_y (fst p) item) (window_x (fst p) item) (window_size (fst p)) (snd p))
      else p)"

text \<open>
  The two arrays \<open>__getitem__\<close> works on: loaded from the cache files of the entry's
  basename, then transformed.
\<close>

definition load_item ::
  "XRayDataset \<Rightarrow> npz_store \<Rightarrow> int \<Rightarrow> py_error + (real array3 \<times> real array3)" where
  "load_item ds store item =
     (case py_index (filenames ds) item of
        Inl e \<Rightarrow> Inl e
      | Inr image_name \<Rightarrow>
          (case store (image_npy_path (pickle_dir ds) image_name) of
             None \<Rightarrow> Inl FileNotFoundError
           | Some img \<Rightarrow>
               (case store (label_npy_path (pickle_dir ds) image_name) of
                  None \<Rightarrow> Inl FileNotFoundError
                | Some label \<Rightarrow> apply_transforms ds img label)))"

definition XRayDataset_getitem ::
  "environment \<Rightarrow> XRayDataset \<Rightarrow> npz_store \<Rightarrow> int \<Rightarrow> py_error + (real array3 \<times> real array3)" where
  "XRayDataset_getitem env ds store item =
     (case load_item ds store item of
        Inl e \<Rightarrow> Inl e
      | Inr p \<Rightarrow>
          (let q = sliding_window ds item p
           in Inr (from_numpy_float (f32 env) (transpose_201 (fst q)),
                   from_numpy_float (f32 env) (transpose_201 (snd q)))))"

section \<open>train.py\<close>

subsection \<open>The validation loader\<close>

text \<open>
  A \<open>DataLoader\<close> over the dataset: the sampler is the order in which it draws the
  indices (\<open>[0, 1, ..., len - 1]\<close> without shuffling), a batch the next \<open>batch_size\<close> of
  them, the last one shorter, or left out with \<open>drop_last\<close>. The batch size is positive:
  the loader refuses any other.
\<close>

record data_loader =
  dataset :: XRayDataset
  batch_size :: nat
  sampler :: "nat list"
  drop_last :: bool

function batches_of :: "nat \<Rightarrow> 'a list \<Rightarrow> 'a list list" where
  "batches_of b xs = (if b = 0 \<or> xs = [] then [] else take b xs # batches_of b (drop b xs))"
  by pat_completeness auto
termination
  by (relation "measure (\<lambda>(b, xs). length xs)") auto

declare batches_of.simps [simp del]

definition loader_batches :: "data_loader \<Rightarrow> nat list list" where
  "loader_batches dl =
     (let bs = batches_of (batch_size dl) (sampler dl)
      in if drop_last dl then filter (\<lambda>b. length b = batch_size dl) bs else bs)"

subsection \<open>validation\<close>

text \<open>
  \<open>utils.metrics\<close> is outside the sources at hand, so its two functions are parameters:
  \<open>dice_coef\<close> gives, for the thresholded outputs of a batch and the masks of the batch
  (named by the dataset indices the batch was drawn from), one row of per-class
  coefficients per image; \<open>encode_mask_to_rle\<close> turns one binary mask into its string.
\<close>

record 'm metrics =
  dice_coef :: "'m list list \<Rightarrow> nat list \<Rightarrow> real list list"
  encode_mask_to_rle :: "'m \<Rightarrow> string"

record result_rles =
  image_names :: "string list"
  classes :: "string list"
  rles :: "string list"

text \<open>\<open>for c, segm in enumerate(output)\<close>: the dictionary lookup raises on a missing key.\<close>

fun encode_output ::
  "(nat \<rightharpoonup> string) \<Rightarrow> ('m \<Rightarrow> string) \<Rightarrow> string \<Rightarrow> nat \<Rightarrow> 'm list \<Rightarrow> result_rles \<Rightarrow>
   py_error + result_rles" where
  "encode_output i2c enc image_name c [] res = Inr res"
| "encode_output i2c enc image_name c (segm # rest) res =
     (case i2c c of
        None \<Rightarrow> Inl KeyError
      | Some cls \<Rightarrow>
          encode_output i2c enc image_name (Suc c) rest
            (res\<lparr> rles := rles res @ [enc segm],
                  classes := classes res @ [cls],
                  image_names := image_names res @ [basename image_name] \<rparr>))"

text \<open>\<open>for output, image_name in zip(outputs, batch_filenames)\<close>.\<close>

fun encode_batch ::
  "(nat \<rightharpoonup> string) \<Rightarrow> ('m \<Rightarrow> string) \<Rightarrow> ('m list \<times> string) list \<Rightarrow> result_rles \<Rightarrow>
   py_error + result_rles" where
  "encode_batch i2c enc [] res = Inr res"
| "encode_batch i2c enc ((output, image_name) # rest) res =
     (case encode_output i2c enc image_name 0 output res of
        Inl e \<Rightarrow> Inl e
      | Inr res' \<Rightarrow> encode_batch i2c enc rest res')"

definition batch_filenames :: "data_loader \<Rightarrow> nat \<Rightarrow> string list" where
  "batch_filenames dl step =
     map (\<lambda>i. filenames (dataset dl) ! i)
       [step * batch_size dl ..<
          min ((step + 1) * batch_size dl) (length (filenames (dataset dl)))]"

text \<open>
  The loop over the batches. \<open>predict\<close> stands for the network followed by the
  interpolation to the mask size, the sigmoid and the threshold: for a batch it gives one
  output per image, each a list of one binary mask per channel.
\<close>

fun validation_loop ::
  "'m metrics \<Rightarrow> (nat list \<Rightarrow> 'm list list) \<Rightarrow> data_loader \<Rightarrow> nat \<Rightarrow> nat list list \<Rightarrow>
   real list list list \<times> result_rles \<Rightarrow> py_error + (real list list list \<times> result_rles)" where
  "validation_loop mt predict dl step [] acc = Inr acc"
| "validation_loop mt predict dl step (batch # rest) (dices, res) =
     (let outputs = predict batch;
          dice = dice_coef mt outputs batch
      in case encode_batch (IND2CLASS (dataset dl)) (encode_mask_to_rle mt)
                (zip outputs (batch_filenames dl step)) res of
           Inl e \<Rightarrow> Inl e
         | Inr res' \<Rightarrow> validation_loop mt predict dl (Suc step) rest (dices @ [dice], res'))"

text \<open>
  \<open>torch.cat(dices, 0)\<close> stacks the rows of the batches and refuses rows of different
  widths; \<open>torch.mean(dices, 0)\<close> is the mean of every column, \<open>torch.mean\<close> of a vector the
  mean of its entries. The arithmetic is that of the reals; the mean of nothing, which
  is \<open>nan\<close> in torch, has no counterpart here.
\<close>

definition torch_cat :: "real list list list \<Rightarrow> py_error + real list list" where
  "torch_cat ts =
     (let rows = concat ts
      in if ts = [] \<or> (\<exists>r \<in> set rows. length r \<noteq> length (hd rows)) then Inl RuntimeError
         else Inr rows)"

definition mean :: "real list \<Rightarrow> real" where
  "mean xs = sum_list xs / real (length xs)"

definition mean_dim0 :: "real list list \<Rightarrow> real list" where
  "mean_dim0 rows =
     map (\<lambda>c. mean (map (\<lambda>row. row ! c) rows))
       [0..<(case rows of [] \<Rightarrow> 0 | r # _ \<Rightarrow> length r)]"

definition validation ::
  "'m metrics \<Rightarrow> (nat list \<Rightarrow> 'm list list) \<Rightarrow> data_loader \<Rightarrow>
   py_error + (real \<times> (string \<times> real) list \<times> result_rles)" where
  "validation mt predict dl =
     (case validation_loop mt predict dl 0 (loader_batches dl)
             ([], \<lparr> image_names = [], classes = [], rles = [] \<rparr>) of
        Inl e \<Rightarrow> Inl e
      | Inr (dices, res) \<Rightarrow>
          (if loader_batches dl = [] then Inl ZeroDivisionError
           else
             (case torch_cat dices of
                Inl e \<Rightarrow> Inl e
              | Inr rows \<Rightarrow>
                  (let dices_per_class = mean_dim0 rows;
                       dice_dict =
                         zip (map (\<lambda>c. ''val/'' @ c) (DATA_CLASSES (config (dataset dl))))
                           dices_per_class;
                       avg_dice = mean dices_per_class
                   in Inr (avg_dice, dice_dict, res)))))"

subsection \<open>train\<close>

text \<open>
  The calls the loop makes on the optimizer, the gradient scaler, the schedulers and the
  checkpoint, in their order. \<open>Backward l\<close> is \<open>backward()\<close> on the loss \<open>l\<close>,
  \<open>ScaledBackward l\<close> is \<open>scaler.scale(l).backward()\<close>, \<open>ScalerStep\<close> the call
  \<open>scaler.step(optimizer)\<close>. Printing and the calls to the experiment tracker are left out.
  Losses and coefficients are real numbers: the rounding of floating point is not part of
  the model.
\<close>

datatype event =
    ModelTrain
  | ZeroGrad
  | Backward real
  | ScaledBackward real
  | OptimizerStep
  | ScalerStep
  | ScalerUpdate
  | SchedulerStep
  | SwaUpdate
  | SwaSchedulerStep
  | Validation nat
  | SaveModel
  | SaveCsv result_rles nat
  | SwaUpdateBn
  | SwaSave

definition accumulation_steps :: "config \<Rightarrow> int" where
  "accumulation_steps cfg = (case TRAIN_ACCUMULATION_STEPS cfg of Some k \<Rightarrow> k | None \<Rightarrow> 1)"

text \<open>
  One batch: \<open>n\<close> is \<open>len(data_loader)\<close>, \<open>loss\<close> the value of the criterion on the batch.
  With FP16 the remainder by \<open>accumulation_steps\<close> is taken after the backward pass and
  raises when that is zero.
\<close>

definition train_step :: "config \<Rightarrow> nat \<Rightarrow> nat \<Rightarrow> real \<Rightarrow> py_error + event list" where
  "train_step cfg n step loss =
     (if TRAIN_FP16 cfg then
        (if accumulation_steps cfg = 0 then Inl ZeroDivisionError
         else
           Inr (ScaledBackward (loss / real_of_int (accumulation_steps cfg)) #
                (if (int step + 1) mod accumulation_steps cfg = 0 \<or> step + 1 = n
                 then [ScalerStep, ScalerUpdate, ZeroGrad] else [])))
      else Inr [Backward loss, OptimizerStep])"

fun train_batches :: "config \<Rightarrow> nat \<Rightarrow> nat \<Rightarrow> real list \<Rightarrow> py_error + event list" where
  "train_batches cfg n step [] = Inr []"
| "train_batches cfg n step (loss # rest) =
     (case train_step cfg n step loss of
        Inl e \<Rightarrow> Inl e
      | Inr evs \<Rightarrow>
          (case train_batches cfg n (Suc step) rest of
             Inl e \<Rightarrow> Inl e
           | Inr evs' \<Rightarrow> Inr (evs @ evs')))"

text \<open>
  The training part of one epoch, from \<open>model.train()\<close> to the end of the loop over the
  batches.
\<close>

definition train_one_epoch :: "config \<Rightarrow> real list \<Rightarrow> py_error + event list" where
  "train_one_epoch cfg losses =
     (case train_batches cfg (length losses) 0 losses of
        Inl e \<Rightarrow> Inl e
      | Inr evs \<Rightarrow> Inr (ModelTrain # ZeroGrad # evs))"

definition scheduler_events :: "config \<Rightarrow> nat \<Rightarrow> event list" where
  "scheduler_events cfg epoch =
     (case TRAIN_SWA_START cfg of
        Some swa_start \<Rightarrow>
          (if swa_start \<le> int epoch + 1 then [SwaUpdate, SwaSchedulerStep] else [SchedulerStep])
      | None \<Rightarrow> [SchedulerStep])"

record best =
  best_dice :: real
  best_dice_epoch :: nat
  best_rles :: "result_rles option"

text \<open>
  What the run depends on besides the configuration: the metrics, the losses of the
  batches of every epoch, the predictions of the network as it stands after the training
  part of an epoch (numbered from 1), and the validation loader.
\<close>

record 'm train_env =
  metrics :: "'m metrics"
  batch_losses :: "nat \<Rightarrow> real list"
  predict_at :: "nat \<Rightarrow> nat list \<Rightarrow> 'm list list"
  val_loader :: data_loader

definition run_validation ::
  "'m train_env \<Rightarrow> nat \<Rightarrow> py_error + (real \<times> (string \<times> real) list \<times> result_rles)" where
  "run_validation tenv e = validation (metrics tenv) (predict_at tenv e) (val_loader tenv)"

text \<open>The end of an epoch: the validation when it is due, and the best model so far.\<close>

definition validate_epoch ::
  "config \<Rightarrow> 'm train_env \<Rightarrow> nat \<Rightarrow> best \<Rightarrow> py_error + (best \<times> event list)" where
  "validate_epoch cfg tenv epoch b =
     (if TRAIN_VAL_EVERY cfg = 0 then Inl ZeroDivisionError
      else if (int epoch + 1) mod TRAIN_VAL_EVERY cfg = 0 then
        (case run_validation tenv (epoch + 1) of
           Inl e \<Rightarrow> Inl e
         | Inr (dice, class_dices, rs) \<Rightarrow>
             (if best_dice b < dice
              then Inr (\<lparr> best_dice = dice, best_dice_epoch = epoch + 1, best_rles = Some rs \<rparr>,
                        [Validation (epoch + 1), SaveModel])
              else Inr (b, [Validation (epoch + 1)])))
      else Inr (b, []))"

definition train_epoch ::
  "config \<Rightarrow> 'm train_env \<Rightarrow> nat \<Rightarrow> best \<Rightarrow> py_error + (best \<times> event list)" where
  "train_epoch cfg tenv epoch b =
     (case train_one_epoch cfg (batch_losses tenv epoch) of
        Inl e \<Rightarrow> Inl e
      | Inr evs \<Rightarrow>
          (case validate_epoch cfg tenv epoch b of
             Inl e \<Rightarrow> Inl e
           | Inr (b', vevs) \<Rightarrow> Inr (b', evs @ scheduler_events cfg epoch @ vevs)))"

text \<open>
  \<open>for epoch in range(EPOCHS)\<close>: the state after the first \<open>k\<close> epochs, with the events of
  each epoch.
\<close>

primrec train_loop ::
  "config \<Rightarrow> 'm train_env \<Rightarrow> nat \<Rightarrow> py_error + (best \<times> event list list)" where
  "train_loop cfg tenv 0 =
     Inr (\<lparr> best_dice = 0, best_dice_epoch = 0, best_rles = None \<rparr>, [])"
| "train_loop cfg tenv (Suc k) =
     (case train_loop cfg tenv k of
        Inl e \<Rightarrow> Inl e
      | Inr (b, hist) \<Rightarrow>
          (case train_epoch cfg tenv k b of
             Inl e \<Rightarrow> Inl e
           | Inr (b', evs) \<Rightarrow> Inr (b', hist @ [evs])))"

text \<open>The whole of \<open>train\<close>: the epochs, the CSV of the best validation, the SWA model.\<close>

definition train :: "config \<Rightarrow> 'm train_env \<Rightarrow> py_error + (best \<times> event list list \<times> event list)" where
  "train cfg tenv =
     (case train_loop cfg tenv (TRAIN_EPOCHS cfg) of
        Inl e \<Rightarrow> Inl e
      | Inr (b, hist) \<Rightarrow>
          Inr (b, hist,
               (case best_rles b of None \<Rightarrow> [] | Some rs \<Rightarrow> [SaveCsv rs (best_dice_epoch b)]) @
               (case TRAIN_SWA_START cfg of None \<Rightarrow> [] | Some _ \<Rightarrow> [SwaUpdateBn, SwaSave])))"

subsection \<open>The contract of the group split\<close>

text \<open>
  What scikit-learn promises of \<open>GroupKFold(n_splits).split(X, y, groups)\<close>: it yields
  \<open>n_splits\<close> folds, every sample index lies in the test part of exactly one fold, and
  with a sample the test part of a fold holds all samples of its group.
\<close>

definition group_kfold_splits :: "nat \<Rightarrow> string list \<Rightarrow> (nat list \<times> nat list) list \<Rightarrow> bool" where
  "group_kfold_splits n groups folds \<longleftrightarrow>
     length folds = n \<and>
     list_all (\<lambda>i. length (filter (\<lambda>k. i \<in> set (snd (folds ! k))) [0..<n]) = 1)
       [0..<length groups] \<and>
     list_all (\<lambda>k. list_all (\<lambda>i. i < length groups \<and>
                   list_all (\<lambda>j. groups ! j = groups ! i \<longrightarrow> j \<in> set (snd (folds ! k)))
                     [0..<length groups])
                 (snd (folds ! k)))
       [0..<n]"

subsection \<open>Notions used in the properties\<close>

text \<open>
  Epochs are numbered from 1, as the loop reports them. \<open>val_due\<close> says that the
  validation runs at the end of epoch \<open>e\<close>; \<open>val_dice\<close> is the average dice it returns
  there. \<open>exceeds_previous\<close> is the condition in the words of the specification: the
  average dice of epoch \<open>e\<close> strictly exceeds every average dice observed before.
\<close>

definition val_due :: "config \<Rightarrow> nat \<Rightarrow> bool" where
  "val_due cfg e \<longleftrightarrow> 0 < e \<and> int e mod TRAIN_VAL_EVERY cfg = 0"

definition val_dice :: "'m train_env \<Rightarrow> nat \<Rightarrow> real" where
  "val_dice tenv e = (case run_validation tenv e of Inl err \<Rightarrow> 0 | Inr (dice, class_dices, rs) \<Rightarrow> dice)"

definition exceeds_previous :: "config \<Rightarrow> 'm train_env \<Rightarrow> nat \<Rightarrow> bool" where
  "exceeds_previous cfg tenv e \<longleftrightarrow>
     (\<forall>e' < e. val_due cfg e' \<longrightarrow> val_dice tenv e' < val_dice tenv e)"

text \<open>
  What holds of the best model after \<open>k\<close> epochs: no validation so far gave more than
  \<open>best_dice\<close>; either nothing was stored and \<open>best_dice\<close> is still the initial \<open>0\<close>, or the
  stored lists, epoch and dice are those of the first validation that reached the
  maximum, which is positive.
\<close>

definition best_inv :: "config \<Rightarrow> 'm train_env \<Rightarrow> nat \<Rightarrow> best \<Rightarrow> bool" where
  "best_inv cfg tenv k b \<longleftrightarrow>
     (\<forall>e \<le> k. val_due cfg e \<longrightarrow> val_dice tenv e \<le> best_dice b) \<and>
     (case best_rles b of
        None \<Rightarrow> best_dice b = 0 \<and> best_dice_epoch b = 0
      | Some rs \<Rightarrow>
          0 < best_dice b \<and> best_dice_epoch b \<le> k \<and> val_due cfg (best_dice_epoch b) \<and>
          (\<exists>class_dices. run_validation tenv (best_dice_epoch b) = Inr (best_dice b, class_dices, rs)) \<and>
          (\<forall>e' < best_dice_epoch b. val_due cfg e' \<longrightarrow> val_dice tenv e' < best_dice b))"

section \<open>Example inputs\<close>

text \<open>
  Six images of five patients and their label files, one file that is not an image, and
  the folds a group split gives for them: the two images of the first patient form the
  first fold.
\<close>

definition example_folds :: "(nat list \<times> nat list) list" where
  "example_folds =
     [([2, 3, 4, 5], [0, 1]), ([0, 1, 3, 4, 5], [2]), ([0, 1, 2, 4, 5], [3]),
      ([0, 1, 2, 3, 5], [4]), ([0, 1, 2, 3, 4], [5])]"

definition example_env :: environment where
  "example_env =
     \<lparr> walk_image_root =
         [''ID002/b.png'', ''ID001/a.png'', ''ID001/f.PNG'', ''ID003/c.png'', ''ID004/d.png'',
          ''ID005/e.png'', ''ID005/notes.txt''],
       walk_label_root =
         [''ID001/a.json'', ''ID001/f.json'', ''ID002/b.json'', ''ID003/c.json'', ''ID004/d.json'',
          ''ID005/e.json''],
       gkf_split =
         (\<lambda>X y groups.
            if length (remdups groups) < 5 then Inl ValueError else Inr example_folds),
       imread = (\<lambda>p. Some (replicate 4 (replicate 4 [255]))),
       load_annotations = (\<lambda>p. Inr [(''finger-1'', [(0, 0), (2, 0), (2, 2)])]),
       fillPoly = (\<lambda>h w points. replicate h (replicate w 1)),
       f32 = (\<lambda>v. v) \<rparr>"

definition example_config :: config where
  "example_config =
     \<lparr> DATA_IMAGE_ROOT = ''/data/train/DCM'', DATA_LABEL_ROOT = ''/data/train/outputs_json'',
       DATA_CLASSES = [''finger-1''], TRAIN_VAL_NUM = None, TRAIN_SLIDING_WINDOW = True,
       TRAIN_FP16 = True, TRAIN_ACCUMULATION_STEPS = Some 2, TRAIN_EPOCHS = 3,
       TRAIN_VAL_EVERY = 1, TRAIN_SWA_START = None \<rparr>"

text \<open>
  A square image of side four and its mask, stored in the cache under the name of the
  first image.
\<close>

definition example_image :: "real array3" where
  "example_image =
     [[[0], [1], [2], [3]], [[4], [5], [6], [7]], [[8], [9], [10], [11]], [[12], [13], [14], [15]]]"

definition example_label :: "real array3" where
  "example_label =
     [[[1], [1], [0], [0]], [[1], [1], [0], [0]], [[0], [0], [0], [0]], [[0], [0], [0], [1]]]"

definition example_store :: npz_store where
  "example_store =
     [''/cache/a.png_image.npz'' \<mapsto> example_image, ''/cache/a.png_label.npz'' \<mapsto> example_label]"

text \<open>
  A dataset with the sliding window on whose two images, of different patients, have the
  same file name.
\<close>

definition example_collision :: XRayDataset where
  "example_collision =
     \<lparr> is_train = False, transforms = None, use_pickle = True, pickle_dir = ''/cache'',
       config = example_config,
       CLASS2IND = class2ind (DATA_CLASSES example_config),
       IND2CLASS = ind2class (DATA_CLASSES example_config),
       filenames = sliding_names [''ID001/image1.png'', ''ID002/image1.png''],
       labelnames = sliding_names [''ID001/image1.png'', ''ID002/image1.png''] \<rparr>"

text \<open>The same files with one label file more, which has no image.\<close>

definition example_mismatch :: environment where
  "example_mismatch =
     example_env\<lparr> walk_label_root := ''ID006/g.json'' # walk_label_root example_env \<rparr>"

text \<open>
  Five patients with one image each, all of the file name \<open>image1.png\<close>: single pixels,
  the image and the annotation of the second patient unlike those of the others. The
  first patient is the validation fold, so the training files are the other four; with
  the sliding window off. The dataset and the cache the constructor gives for them.
\<close>

definition example_shared_folds :: "(nat list \<times> nat list) list" where
  "example_shared_folds =
     [([1, 2, 3, 4], [0]), ([0, 2, 3, 4], [1]), ([0, 1, 3, 4], [2]),
      ([0, 1, 2, 4], [3]), ([0, 1, 2, 3], [4])]"

definition example_shared_env :: environment where
  "example_shared_env =
     \<lparr> walk_image_root =
         [''ID001/image1.png'', ''ID002/image1.png'', ''ID003/image1.png'', ''ID004/image1.png'',
          ''ID005/image1.png''],
       walk_label_root =
         [''ID001/image1.json'', ''ID002/image1.json'', ''ID003/image1.json'',
          ''ID004/image1.json'', ''ID005/image1.json''],
       gkf_split = (\<lambda>X y groups. Inr example_shared_folds),
       imread =
         (\<lambda>p. if p = ''/data/train/DCM/ID002/image1.png'' then Some [[[255]]] else Some [[[51]]]),
       load_annotations =
         (\<lambda>p. if p = ''/data/train/outputs_json/ID002/image1.json''
              then Inr [(''finger-1'', [(0, 0)])] else Inr []),
       fillPoly = (\<lambda>h w points. replicate h (replicate w 1)),
       f32 = (\<lambda>v. v) \<rparr>"

definition example_shared_config :: config where
  "example_shared_config = example_config\<lparr> TRAIN_SLIDING_WINDOW := False \<rparr>"

definition example_shared_ds :: XRayDataset where
  "example_shared_ds =
     \<lparr> is_train = True, transforms = None, use_pickle = True, pickle_dir = ''/cache'',
       config = example_shared_config,
       CLASS2IND = class2ind (DATA_CLASSES example_shared_config),
       IND2CLASS = ind2class (DATA_CLASSES example_shared_config),
       filenames =
         [''ID002/image1.png'', ''ID003/image1.png'', ''ID004/image1.png'', ''ID005/image1.png''],
       labelnames =
         [''ID002/image1.json'', ''ID003/image1.json'', ''ID004/image1.json'',
          ''ID005/image1.json''] \<rparr>"

definition example_shared_store :: npz_store where
  "example_shared_store =
     [''/cache/image1.png_image.npz'' \<mapsto> [[[1]]], ''/cache/image1.png_label.npz'' \<mapsto> [[[1]]]]"

text \<open>
  A validation loader of batch size two over three entries with one class, and a run of
  three epochs: a mask is a number here, the network of epoch \<open>e\<close> gives every image the
  mask \<open>example_quality e\<close>, and the coefficient of a mask is a quarter of it.
\<close>

definition example_loader :: data_loader where
  "example_loader =
     \<lparr> dataset =
         \<lparr> is_train = False, transforms = None, use_pickle = False, pickle_dir = ''/cache'',
           config = example_config,
           CLASS2IND = class2ind (DATA_CLASSES example_config),
           IND2CLASS = ind2class (DATA_CLASSES example_config),
           filenames = [''ID001/a.png'', ''ID001/f.PNG'', ''ID002/b.png''],
           labelnames = [''ID001/a.json'', ''ID001/f.json'', ''ID002/b.json''] \<rparr>,
       batch_size = 2, sampler = [0, 1, 2], drop_last = False \<rparr>"

definition example_metrics :: "nat metrics" where
  "example_metrics =
     \<lparr> dice_coef = (\<lambda>outs batch. map (map (\<lambda>m. real m / 4)) outs),
       encode_mask_to_rle = (\<lambda>m. replicate m CHR ''1'') \<rparr>"

definition example_quality :: "nat \<Rightarrow> nat" where
  "example_quality e = (if e = 1 then 0 else if e = 2 then 2 else 1)"

definition example_predict :: "nat \<Rightarrow> nat list \<Rightarrow> nat list list" where
  "example_predict e batch = map (\<lambda>i. [example_quality e]) batch"

definition example_train_env :: "nat train_env" where
  "example_train_env =
     \<lparr> metrics = example_metrics, batch_losses = (\<lambda>epoch. [1, 2, 3]),
       predict_at = example_predict, val_loader = example_loader \<rparr>"

text \<open>
  What the example run gives: the lists of a validation, and the events of the training
  part of an epoch with its scheduler step.
\<close>

definition example_result :: "nat \<Rightarrow> result_rles" where
  "example_result e =
     \<lparr> image_names = [''a.png'', ''f.PNG'', ''b.png''],
       classes = [''finger-1'', ''finger-1'', ''finger-1''],
       rles = replicate 3 (replicate (example_quality e) CHR ''1'') \<rparr>"

definition example_training_events :: "event list" where
  "example_training_events =
     [ModelTrain, ZeroGrad,
      ScaledBackward (1 / 2),
      ScaledBackward 1, ScalerStep, ScalerUpdate, ZeroGrad,
      ScaledBackward (3 / 2), ScalerStep, ScalerUpdate, ZeroGrad,
      SchedulerStep]"

section \<open>Properties of the dataset\<close>

lemma example_selected_valid:
  "selected example_env example_config False =
     Inr ([''ID001/a.png'', ''ID001/f.PNG''], [''ID001/a.json'', ''ID001/f.json''])"
  by code_simp

lemma init_InrD:
  assumes "XRayDataset_init env store tr tf pickle pdir cfg = Inr (ds, store')"
  obtains fnames lnames where
    "selected env cfg tr = Inr (fnames, lnames)"
    "(if pickle
      then build_cache env cfg (class2ind (DATA_CLASSES cfg)) pdir (zip fnames lnames) store
      else Inr store) = Inr store'"
    "ds = \<lparr> is_train = tr, transforms = tf, use_pickle = pickle, pickle_dir = pdir,
            config = cfg,
            CLASS2IND = class2ind (DATA_CLASSES cfg),
            IND2CLASS = ind2class (DATA_CLASSES cfg),
            filenames = (if TRAIN_SLIDING_WINDOW cfg then sliding_names fnames else fnames),
            labelnames = (if TRAIN_SLIDING_WINDOW cfg then sliding_names fnames else lnames) \<rparr>"
  using assms unfolding XRayDataset_init_def
  by (auto split: sum.splits prod.splits)

lemma length_sliding_names: "length (sliding_names xs) = 9 * length xs"
  by (induction xs) (simp_all add: sliding_names_def)

lemma sliding_names_Cons: "sliding_names (x # xs) = replicate 9 x @ sliding_names xs"
  by (simp add: sliding_names_def)

lemma sliding_names_nth: "i < 9 * length xs \<Longrightarrow> sliding_names xs ! i = xs ! (i div 9)"
proof (induction xs arbitrary: i)
  case Nil
  then show ?case by simp
next
  case (Cons x xs)
  show ?case
  proof (cases "i < 9")
    case True
    then show ?thesis by (simp add: sliding_names_Cons nth_append)
  next
    case False
    then have "i - 9 < 9 * length xs" using Cons.prems by simp
    then have "sliding_names xs ! (i - 9) = xs ! ((i - 9) div 9)" by (rule Cons.IH)
    moreover have "i div 9 = Suc ((i - 9) div 9)" using False by (simp add: le_div_geq)
    ultimately show ?thesis using False by (simp add: sliding_names_Cons nth_append)
  qed
qed

lemma set_sliding_names: "set (sliding_names xs) = set xs"
  by (induction xs) (auto simp: sliding_names_Cons sliding_names_def)

lemma crop_nth:
  assumes "y + i < length a" "i < w" "x + j < length (a ! (y + i))" "j < w"
  shows "crop y x w a ! i ! j = a ! (y + i) ! (x + j)"
proof -
  have "i < length (take w (drop y a))" using assms by simp
  then have "crop y x w a ! i = take w (drop x (take w (drop y a) ! i))"
    by (simp add: crop_def)
  also have "take w (drop y a) ! i = a ! (y + i)" using assms by simp
  finally show ?thesis using assms by simp
qed

lemma getitem_crop:
  assumes "py_index (filenames ds) item = Inr name"
      and "store (image_npy_path (pickle_dir ds) name) = Some img0"
      and "store (label_npy_path (pickle_dir ds) name) = Some lbl0"
      and "apply_transforms ds img0 lbl0 = Inr (img, lbl)"
      and "TRAIN_SLIDING_WINDOW (config ds)"
  shows "XRayDataset_getitem env ds store item =
           Inr (from_numpy_float (f32 env) (transpose_201
                  (crop (nat ((item mod 9) div 3) * (shape0 img div 2 div 2))
                        (nat ((item mod 9) mod 3) * (shape0 img div 2 div 2))
                        (shape0 img div 2) img)),
                from_numpy_float (f32 env) (transpose_201
                  (crop (nat ((item mod 9) div 3) * (shape0 img div 2 div 2))
                        (nat ((item mod 9) mod 3) * (shape0 img div 2 div 2))
                        (shape0 img div 2) lbl)))"
  using assms
  by (simp add: XRayDataset_getitem_def load_item_def sliding_window_def window_y_def
      window_x_def window_size_def stride_def)

lemma tiles_cover:
  fixes img :: "'a array3"
  assumes sq: "\<forall>row \<in> set img. length row = shape0 img" and d4: "4 dvd shape0 img"
      and r: "r < shape0 img" and c: "c < shape0 img"
  shows "\<exists>k<9. window_y img (9 * m + int k) \<le> r \<and> r < window_y img (9 * m + int k) + window_size img
            \<and> window_x img (9 * m + int k) \<le> c \<and> c < window_x img (9 * m + int k) + window_size img
            \<and> crop (window_y img (9 * m + int k)) (window_x img (9 * m + int k)) (window_size img) img
                 ! (r - window_y img (9 * m + int k)) ! (c - window_x img (9 * m + int k)) = img ! r ! c"
proof -
  obtain q where q: "shape0 img = 4 * q" using d4 by (auto simp: dvd_def)
  have w: "window_size img = 2 * q" and s: "stride img = q"
    by (simp_all add: window_size_def stride_def q)
  define ky :: nat where "ky = (if r < 2 * q then 0 else 2)"
  define kx :: nat where "kx = (if c < 2 * q then 0 else 2)"
  define k where "k = 3 * ky + kx"
  have k9: "k < 9" by (simp add: k_def ky_def kx_def)
  have m9: "(9 * m + int k) mod 9 = int k" using k9 by simp
  have ydiv: "nat (int k div 3) = ky" by (simp add: k_def ky_def kx_def)
  have xmod: "nat (int k mod 3) = kx" by (simp add: k_def ky_def kx_def)
  have wy: "window_y img (9 * m + int k) = ky * q" 
    unfolding window_y_def m9 s ydiv ..
  have wx: "window_x img (9 * m + int k) = kx * q"
    unfolding window_x_def m9 s xmod ..
  have yr: "ky * q \<le> r \<and> r < ky * q + 2 * q" using r q by (simp add: ky_def)
  have xc: "kx * q \<le> c \<and> c < kx * q + 2 * q" using c q by (simp add: kx_def)
  have rowlen: "length (img ! r) = shape0 img" using sq r by (simp add: shape0_def)
  have r': "r - ky * q < 2 * q" "ky * q + (r - ky * q) = r" using yr by linarith+
  have c': "c - kx * q < 2 * q" "kx * q + (c - kx * q) = c" using xc by linarith+
  have "crop (ky * q) (kx * q) (2 * q) img ! (r - ky * q) ! (c - kx * q) = img ! r ! c"
    using crop_nth [of "ky * q" "r - ky * q" img "2 * q" "kx * q" "c - kx * q"] r c rowlen
    unfolding r' c' using r' c' by (simp add: shape0_def)
  then show ?thesis using k9 yr xc by (intro exI [of _ k]) (simp add: wy wx w)
qed

lemma tiles_inside:
  fixes img :: "'a array3"
  assumes d4: "4 dvd shape0 img" 
  shows "window_y img item + window_size img \<le> shape0 img"
    and "window_x img item + window_size img \<le> shape0 img"
proof -
  obtain q where q: "shape0 img = 4 * q" using d4 by (auto simp: dvd_def)
  have w: "window_size img = 2 * q" and s: "stride img = q"
    by (simp_all add: window_size_def stride_def q)
  have "nat ((item mod 9) div 3) \<le> 2" by simp
  then have "nat ((item mod 9) div 3) * q \<le> 2 * q" by (rule mult_le_mono1)
  then show "window_y img item + window_size img \<le> shape0 img"
    by (simp add: window_y_def w s q)
  have "nat ((item mod 9) mod 3) \<le> 2" by simp
  then have "nat ((item mod 9) mod 3) * q \<le> 2 * q" by (rule mult_le_mono1)
  then show "window_x img item + window_size img \<le> shape0 img"
    by (simp add: window_x_def w s q)
qed

subsection \<open>Sliding window\<close>

text \<open>
  Claim C1. With \<open>config.TRAIN.SLIDING_WINDOW\<close> on, a constructed dataset has nine
  entries per selected image, entry \<open>i\<close> naming image \<open>i div 9\<close>. Whenever the cache holds the
  two arrays of the entry's name and the transforms give \<open>img\<close> and \<open>lbl\<close>,
  \<open>__getitem__\<close> returns the crops of both at the window of side \<open>H div 2\<close>, with stride
  a half of that, at column offset \<open>((item mod 9) mod 3) * stride\<close> and row offset
  \<open>((item mod 9) div 3) * stride\<close>, \<open>H\<close> being the height of \<open>img\<close>. For a square image
  whose side is a multiple of four every window lies inside the image, and every pixel
  lies in one of the nine windows of the image, at the position the offsets give.
\<close>

theorem sliding_window_tiles:
  assumes init: "XRayDataset_init env store tr tf pickle pdir cfg = Inr (ds, store')"
      and sw: "TRAIN_SLIDING_WINDOW cfg"
  shows
    "(\<exists>base labels. selected env cfg tr = Inr (base, labels) \<and>
        XRayDataset_len ds = 9 * length base \<and>
        (\<forall>i < XRayDataset_len ds. filenames ds ! i = base ! (i div 9))) \<and>
     (\<forall>st item name img0 lbl0 img lbl.
        py_index (filenames ds) item = Inr name \<longrightarrow>
        st (image_npy_path (pickle_dir ds) name) = Some img0 \<longrightarrow>
        st (label_npy_path (pickle_dir ds) name) = Some lbl0 \<longrightarrow>
        apply_transforms ds img0 lbl0 = Inr (img, lbl) \<longrightarrow>
        XRayDataset_getitem env ds st item =
          Inr (from_numpy_float (f32 env) (transpose_201
                 (crop (nat ((item mod 9) div 3) * (shape0 img div 2 div 2))
                       (nat ((item mod 9) mod 3) * (shape0 img div 2 div 2))
                       (shape0 img div 2) img)),
               from_numpy_float (f32 env) (transpose_201
                 (crop (nat ((item mod 9) div 3) * (shape0 img div 2 div 2))
                       (nat ((item mod 9) mod 3) * (shape0 img div 2 div 2))
                       (shape0 img div 2) lbl)))) \<and>
     (\<forall>img :: real array3.
        (\<forall>row \<in> set img. length row = shape0 img) \<longrightarrow> 4 dvd shape0 img \<longrightarrow>
        (\<forall>item. window_size img = shape0 img div 2 \<and> stride img = window_size img div 2 \<and>
                 window_x img item = nat ((item mod 9) mod 3) * stride img \<and>
                 window_y img item = nat ((item mod 9) div 3) * stride img \<and>
                 window_y img item + window_size img \<le> shape0 img \<and>
                 window_x img item + window_size img \<le> shape0 img) \<and>
        (\<forall>m. \<forall>r < shape0 img. \<forall>c < shape0 img. \<exists>k < 9.
            window_y img (9 * m + int k) \<le> r \<and>
            r < window_y img (9 * m + int k) + window_size img \<and>
            window_x img (9 * m + int k) \<le> c \<and>
            c < window_x img (9 * m + int k) + window_size img \<and>
            crop (window_y img (9 * m + int k)) (window_x img (9 * m + int k)) (window_size img) img
              ! (r - window_y img (9 * m + int k)) ! (c - window_x img (9 * m + int k)) =
            img ! r ! c))"
proof (intro conjI)
  from init obtain fnames lnames where
    sel: "selected env cfg tr = Inr (fnames, lnames)" and
    ds: "filenames ds = (if TRAIN_SLIDING_WINDOW cfg then sliding_names fnames else fnames)"
    by (rule init_InrD) simp
  have fn: "filenames ds = sliding_names fnames" using ds sw by simp
  have "XRayDataset_len ds = 9 * length fnames"
    by (simp add: XRayDataset_len_def fn length_sliding_names)
  moreover have "\<forall>i < XRayDataset_len ds. filenames ds ! i = fnames ! (i div 9)"
    by (simp add: XRayDataset_len_def fn length_sliding_names sliding_names_nth)
  ultimately show "\<exists>base labels. selected env cfg tr = Inr (base, labels) \<and>
        XRayDataset_len ds = 9 * length base \<and>
        (\<forall>i < XRayDataset_len ds. filenames ds ! i = base ! (i div 9))"
    using sel by blast
next
  have cfg: "config ds = cfg" using init by (rule init_InrD) simp
  show "\<forall>st item name img0 lbl0 img lbl.
        py_index (filenames ds) item = Inr name \<longrightarrow>
        st (image_npy_path (pickle_dir ds) name) = Some img0 \<longrightarrow>
        st (label_npy_path (pickle_dir ds) name) = Some lbl0 \<longrightarrow>
        apply_transforms ds img0 lbl0 = Inr (img, lbl) \<longrightarrow>
        XRayDataset_getitem env ds st item =
          Inr (from_numpy_float (f32 env) (transpose_201
                 (crop (nat ((item mod 9) div 3) * (shape0 img div 2 div 2))
                       (nat ((item mod 9) mod 3) * (shape0 img div 2 div 2))
                       (shape0 img div 2) img)),
               from_numpy_float (f32 env) (transpose_201
                 (crop (nat ((item mod 9) div 3) * (shape0 img div 2 div 2))
                       (nat ((item mod 9) mod 3) * (shape0 img div 2 div 2))
                       (shape0 img div 2) lbl)))"
    using getitem_crop cfg sw by blast
next
  show "\<forall>img :: real array3.
        (\<forall>row \<in> set img. length row = shape0 img) \<longrightarrow> 4 dvd shape0 img \<longrightarrow>
        (\<forall>item. window_size img = shape0 img div 2 \<and> stride img = window_size img div 2 \<and>
                 window_x img item = nat ((item mod 9) mod 3) * stride img \<and>
                 window_y img item = nat ((item mod 9) div 3) * stride img \<and>
                 window_y img item + window_size img \<le> shape0 img \<and>
                 window_x img item + window_size img \<le> shape0 img) \<and>
        (\<forall>m. \<forall>r < shape0 img. \<forall>c < shape0 img. \<exists>k < 9.
            window_y img (9 * m + int k) \<le> r \<and>
            r < window_y img (9 * m + int k) + window_size img \<and>
            window_x img (9 * m + int k) \<le> c \<and>
            c < window_x img (9 * m + int k) + window_size img \<and>
            crop (window_y img (9 * m + int k)) (window_x img (9 * m + int k)) (window_size img) img
              ! (r - window_y img (9 * m + int k)) ! (c - window_x img (9 * m + int k)) =
            img ! r ! c)"
  proof (intro allI impI conjI)
    fix img :: "real array3" and item
    assume "4 dvd shape0 img"
    then show "window_y img item + window_size img \<le> shape0 img"
      and "window_x img item + window_size img \<le> shape0 img"
      by (rule tiles_inside)+
  next
    fix img :: "real array3" and m r c
    assume "\<forall>row \<in> set img. length row = shape0 img" "4 dvd shape0 img"
      "r < shape0 img" "c < shape0 img"
    then show "\<exists>k < 9.
            window_y img (9 * m + int k) \<le> r \<and>
            r < window_y img (9 * m + int k) + window_size img \<and>
            window_x img (9 * m + int k) \<le> c \<and>
            c < window_x img (9 * m + int k) + window_size img \<and>
            crop (window_y img (9 * m + int k)) (window_x img (9 * m + int k)) (window_size img) img
              ! (r - window_y img (9 * m + int k)) ! (c - window_x img (9 * m + int k)) =
            img ! r ! c"
      by (rule tiles_cover)
  qed (simp_all add: window_size_def stride_def window_x_def window_y_def)
qed

lemma example_init_valid:
  "XRayDataset_init example_env Map.empty False None False ''/cache'' example_config =
     Inr (\<lparr> is_train = False, transforms = None, use_pickle = False, pickle_dir = ''/cache'',
            config = example_config,
            CLASS2IND = class2ind (DATA_CLASSES example_config),
            IND2CLASS = ind2class (DATA_CLASSES example_config),
            filenames = sliding_names [''ID001/a.png'', ''ID001/f.PNG''],
            labelnames = sliding_names [''ID001/a.png'', ''ID001/f.PNG''] \<rparr>, Map.empty)"
  by (simp add: XRayDataset_init_def example_selected_valid) (simp add: example_config_def)

lemma example_item:
  "py_index (sliding_names [''ID001/a.png'', ''ID001/f.PNG'']) 4 = Inr ''ID001/a.png''"
  "image_npy_path ''/cache'' ''ID001/a.png'' = ''/cache/a.png_image.npz''"
  "label_npy_path ''/cache'' ''ID001/a.png'' = ''/cache/a.png_label.npz''"
  "from_numpy_float (f32 example_env) (transpose_201
     (crop (nat (((4::int) mod 9) div 3) * (shape0 example_image div 2 div 2))
           (nat (((4::int) mod 9) mod 3) * (shape0 example_image div 2 div 2))
           (shape0 example_image div 2) example_image)) = [[[5, 6], [9, 10]]]"
  "from_numpy_float (f32 example_env) (transpose_201
     (crop (nat (((4::int) mod 9) div 3) * (shape0 example_image div 2 div 2))
           (nat (((4::int) mod 9) mod 3) * (shape0 example_image div 2 div 2))
           (shape0 example_image div 2) example_label)) = [[[1, 0], [0, 0]]]"
  "\<forall>row \<in> set example_image. length row = shape0 example_image"
  "4 dvd shape0 example_image"
  "shape0 example_image = 4"
  by code_simp+

theorem sliding_window_tiles_witness:
  "TRAIN_SLIDING_WINDOW example_config \<and>
   (\<exists>ds store'.
      XRayDataset_init example_env Map.empty False None False ''/cache'' example_config =
        Inr (ds, store') \<and>
      XRayDataset_len ds = 18 \<and>
      XRayDataset_getitem example_env ds example_store 4 =
        Inr ([[[5, 6], [9, 10]]], [[[1, 0], [0, 0]]])) \<and>
   (\<exists>k < 9.
      crop (window_y example_image (int k)) (window_x example_image (int k))
        (window_size example_image) example_image
        ! (3 - window_y example_image (int k)) ! (3 - window_x example_image (int k)) =
      example_image ! 3 ! 3)"
proof -
  let ?ds = "\<lparr> is_train = False, transforms = None, use_pickle = False, pickle_dir = ''/cache'',
            config = example_config,
            CLASS2IND = class2ind (DATA_CLASSES example_config),
            IND2CLASS = ind2class (DATA_CLASSES example_config),
            filenames = sliding_names [''ID001/a.png'', ''ID001/f.PNG''],
            labelnames = sliding_names [''ID001/a.png'', ''ID001/f.PNG''] \<rparr>"
  have sw: "TRAIN_SLIDING_WINDOW example_config" by (simp add: example_config_def)
  note tiles = sliding_window_tiles [OF example_init_valid sw]
  have idx: "py_index (filenames ?ds) 4 = Inr ''ID001/a.png''" by (simp add: example_item)
  have ip: "example_store (image_npy_path (pickle_dir ?ds) ''ID001/a.png'') = Some example_image"
    by (simp add: example_item example_store_def)
  have lp: "example_store (label_npy_path (pickle_dir ?ds) ''ID001/a.png'') = Some example_label"
    by (simp add: example_item example_store_def)
  have tf: "apply_transforms ?ds example_image example_label = Inr (example_image, example_label)"
    by (simp add: apply_transforms_def)
  from tiles obtain base labels where
    "selected example_env example_config False = Inr (base, labels)"
    "XRayDataset_len ?ds = 9 * length base" by blast
  then have len: "XRayDataset_len ?ds = 18" by (auto simp: example_selected_valid)
  have item: "XRayDataset_getitem example_env ?ds example_store 4 =
        Inr ([[[5, 6], [9, 10]]], [[[1, 0], [0, 0]]])"
    using tiles [THEN conjunct2, THEN conjunct1, rule_format, OF idx ip lp tf]
    unfolding example_item(4,5) .
  have "\<exists>k < 9.
      window_y example_image (9 * 0 + int k) \<le> 3 \<and>
      3 < window_y example_image (9 * 0 + int k) + window_size example_image \<and>
      window_x example_image (9 * 0 + int k) \<le> 3 \<and>
      3 < window_x example_image (9 * 0 + int k) + window_size example_image \<and>
      crop (window_y example_image (9 * 0 + int k)) (window_x example_image (9 * 0 + int k))
        (window_size example_image) example_image
        ! (3 - window_y example_image (9 * 0 + int k)) ! (3 - window_x example_image (9 * 0 + int k)) =
      example_image ! 3 ! 3"
    using tiles [THEN conjunct2, THEN conjunct2, THEN spec [where x = example_image],
        THEN mp, OF example_item(6), THEN mp, OF example_item(7), THEN conjunct2,
        rule_format, of 3 3 0]
    by (simp add: example_item(8))
  then have cover: "\<exists>k < 9.
      crop (window_y example_image (int k)) (window_x example_image (int k))
        (window_size example_image) example_image
        ! (3 - window_y example_image (int k)) ! (3 - window_x example_image (int k)) =
      example_image ! 3 ! 3"
    by auto
  show ?thesis using sw example_init_valid len item cover by blast
qed

lemma np_take_set: "np_take xs ys = Inr zs \<Longrightarrow> set zs \<subseteq> set xs"
  by (auto simp: np_take_def list_all_iff split: if_splits)

lemma np_take_error: "np_take xs ys = Inl e \<Longrightarrow> e = IndexError"
  by (auto simp: np_take_def split: if_splits)

lemma select_folds_set:
  "select_folds tr vn fs ls i folds (fa, la) = Inr (f, l) \<Longrightarrow> set f \<subseteq> set fs \<union> set fa"
proof (induction folds arbitrary: i fa la)
  case Nil
  then show ?case by auto
next
  case (Cons fold folds)
  obtain x y where fold: "fold = (x, y)" by (cases fold)
  show ?case using Cons.prems Cons.IH np_take_set unfolding fold
    by (fastforce split: if_splits sum.splits)
qed

lemma select_folds_error:
  "select_folds tr vn fs ls i folds acc = Inl e \<Longrightarrow> e = IndexError"
proof (induction folds arbitrary: i acc)
  case Nil
  then show ?case by (cases acc) simp
next
  case (Cons fold folds)
  obtain x y where fold: "fold = (x, y)" by (cases fold)
  obtain fa la where acc: "acc = (fa, la)" by (cases acc)
  show ?case using Cons.prems Cons.IH np_take_error unfolding fold acc
    by (auto split: if_splits sum.splits)
qed

lemma finite_pngs: "finite (pngs env)"
  by (simp add: pngs_def)

lemma selected_subset_pngs:
  assumes "selected env cfg tr = Inr (f, l)"
  shows "set f \<subseteq> pngs env"
proof -
  from assms obtain folds where
    "select_folds tr (val_num cfg) (sorted_list_of_set (pngs env)) (sorted_list_of_set (jsons env))
       0 folds ([], []) = Inr (f, l)"
    by (auto simp: selected_def Let_def split: sum.splits)
  from select_folds_set [OF this] show ?thesis by (simp add: finite_pngs)
qed

lemma apply_transforms_ignores_labelnames:
  "apply_transforms (ds\<lparr>labelnames := names\<rparr>) img lbl = apply_transforms ds img lbl"
  by (simp add: apply_transforms_def split: option.splits sum.splits prod.splits)

lemma load_item_ignores_labelnames:
  "load_item (ds\<lparr>labelnames := names\<rparr>) st item = load_item ds st item"
  by (simp add: load_item_def apply_transforms_ignores_labelnames split: sum.splits option.splits)

lemma sliding_window_ignores_labelnames:
  "sliding_window (ds\<lparr>labelnames := names\<rparr>) item p = sliding_window ds item p"
  by (simp add: sliding_window_def)

lemma getitem_ignores_labelnames:
  "XRayDataset_getitem env (ds\<lparr>labelnames := names\<rparr>) st item = XRayDataset_getitem env ds st item"
  by (simp add: XRayDataset_getitem_def load_item_ignores_labelnames
      sliding_window_ignores_labelnames split: sum.splits)

subsection \<open>Label names under the sliding window\<close>

text \<open>
  Claim C8. After a construction with the sliding window on, \<open>labelnames\<close> equals
  \<open>filenames\<close>: both are the nine-fold expansion of the selected image names, so every
  label name is one of the PNG files and carries that extension. \<open>__getitem__\<close> does not
  read \<open>labelnames\<close>: replacing the list changes no result.
\<close>

theorem sliding_labelnames_are_filenames:
  assumes init: "XRayDataset_init env store tr tf pickle pdir cfg = Inr (ds, store')"
      and sw: "TRAIN_SLIDING_WINDOW cfg"
  shows "labelnames ds = filenames ds \<and>
         (\<forall>name \<in> set (labelnames ds).
            name \<in> pngs env \<and> lower (snd (splitext (basename name))) = ''.png'') \<and>
         (\<forall>names st item.
            XRayDataset_getitem env (ds\<lparr>labelnames := names\<rparr>) st item =
            XRayDataset_getitem env ds st item)"
proof -
  from init obtain fnames lnames where
    sel: "selected env cfg tr = Inr (fnames, lnames)" and
    fn: "filenames ds = (if TRAIN_SLIDING_WINDOW cfg then sliding_names fnames else fnames)" and
    ln: "labelnames ds = (if TRAIN_SLIDING_WINDOW cfg then sliding_names fnames else lnames)"
    by (rule init_InrD) simp
  have eq: "labelnames ds = filenames ds" using fn ln sw by simp
  have "set (labelnames ds) \<subseteq> pngs env"
    using selected_subset_pngs [OF sel] ln sw by (simp add: set_sliding_names)
  then have "\<forall>name \<in> set (labelnames ds).
            name \<in> pngs env \<and> lower (snd (splitext (basename name))) = ''.png''"
    by (auto simp: pngs_def)
  then show ?thesis using eq getitem_ignores_labelnames by blast
qed

theorem sliding_labelnames_are_filenames_witness:
  "TRAIN_SLIDING_WINDOW example_config \<and>
   (\<exists>ds store'.
      XRayDataset_init example_env Map.empty False None False ''/cache'' example_config =
        Inr (ds, store') \<and>
      labelnames ds = filenames ds \<and> ''ID001/a.png'' \<in> set (labelnames ds))"
proof -
  have sw: "TRAIN_SLIDING_WINDOW example_config" by (simp add: example_config_def)
  from sliding_labelnames_are_filenames [OF example_init_valid sw]
  show ?thesis using sw example_init_valid by (simp add: sliding_names_def)
qed

subsection \<open>Entries with the same basename\<close>

text \<open>
  Claim C10. Without transforms, two entries whose file names have the same basename
  (and, under the sliding window, indices with the same remainder by nine) have the
  same two cache paths, and \<open>__getitem__\<close> gives the same result for both, whatever the
  cache holds: the directory of a file name plays no part.
\<close>

theorem same_basename_same_item:
  assumes "transforms ds = None"
      and "py_index (filenames ds) i = Inr ni"
      and "py_index (filenames ds) j = Inr nj"
      and "basename ni = basename nj"
      and "TRAIN_SLIDING_WINDOW (config ds) \<longrightarrow> i mod 9 = j mod 9"
  shows "image_npy_path (pickle_dir ds) ni = image_npy_path (pickle_dir ds) nj \<and>
         label_npy_path (pickle_dir ds) ni = label_npy_path (pickle_dir ds) nj \<and>
         XRayDataset_getitem env ds st i = XRayDataset_getitem env ds st j"
  using assms
  by (auto simp: XRayDataset_getitem_def load_item_def apply_transforms_def sliding_window_def
      image_npy_path_def label_npy_path_def window_x_def window_y_def Let_def
      split: option.splits sum.splits)

lemma example_collision_names:
  "py_index (filenames example_collision) 0 = Inr ''ID001/image1.png''"
  "py_index (filenames example_collision) 9 = Inr ''ID002/image1.png''"
  "basename ''ID001/image1.png'' = basename ''ID002/image1.png''"
  by code_simp+

theorem same_basename_same_item_witness:
  "transforms example_collision = None \<and>
   py_index (filenames example_collision) 0 = Inr ''ID001/image1.png'' \<and>
   py_index (filenames example_collision) 9 = Inr ''ID002/image1.png'' \<and>
   ''ID001/image1.png'' \<noteq> ''ID002/image1.png'' \<and>
   (\<forall>st. XRayDataset_getitem example_env example_collision st 0 =
         XRayDataset_getitem example_env example_collision st 9)"
proof -
  have tf: "transforms example_collision = None" by (simp add: example_collision_def)
  have sw: "TRAIN_SLIDING_WINDOW (config example_collision) \<longrightarrow> (0::int) mod 9 = 9 mod 9"
    by simp
  show ?thesis
    using same_basename_same_item [OF tf example_collision_names sw, of example_env]
      tf example_collision_names by simp
qed

subsection \<open>The assertions of the constructor\<close>

lemma finite_prefixes: "finite (pngs_fn_prefix env)" "finite (jsons_fn_prefix env)"
  by (simp_all add: pngs_fn_prefix_def jsons_fn_prefix_def pngs_def jsons_def)

lemma check_prefixes_cases:
  "check_prefixes env =
     (if pngs_fn_prefix env = jsons_fn_prefix env then Inr () else Inl AssertionError)"
  using finite_prefixes [of env] by (auto simp: check_prefixes_def)

lemma draw_annotations_error:
  "draw_annotations env c2i h w anns lbl = Inl e \<Longrightarrow> e = KeyError"
proof (induction anns arbitrary: lbl)
  case Nil
  then show ?case by simp
next
  case (Cons ann anns)
  obtain c points where ann: "ann = (c, points)" by (cases ann)
  show ?case using Cons.prems Cons.IH unfolding ann by (auto split: option.splits)
qed

lemma create_data_error:
  assumes "create_data env cfg c2i image_name label_name = Inl e"
  shows "e = TypeError \<or> e = KeyError \<or> (\<exists>p. load_annotations env p = Inl e)"
  using assms draw_annotations_error unfolding create_data_def Let_def
  by (fastforce split: option.splits sum.splits)

lemma build_cache_error:
  "build_cache env cfg c2i pdir pairs st = Inl e \<Longrightarrow>
   \<exists>image_name label_name. create_data env cfg c2i image_name label_name = Inl e"
proof (induction pairs arbitrary: st)
  case Nil
  then show ?case by simp
next
  case (Cons pair pairs)
  obtain n l where pair: "pair = (n, l)" by (cases pair)
  show ?case using Cons.prems Cons.IH unfolding pair
    by (auto split: if_splits sum.splits)
qed

lemma selected_after_assertions:
  assumes "pngs_fn_prefix env = jsons_fn_prefix env"
  shows "selected env cfg tr =
           (case gkf_split env (sorted_list_of_set (pngs env))
                   (map (\<lambda>fname. 0) (sorted_list_of_set (pngs env)))
                   (map dirname (sorted_list_of_set (pngs env))) of
              Inl e \<Rightarrow> Inl e
            | Inr folds \<Rightarrow>
                select_folds tr (val_num cfg) (sorted_list_of_set (pngs env))
                  (sorted_list_of_set (jsons env)) 0 folds ([], []))"
  using assms by (simp add: selected_def check_prefixes_cases Let_def)

lemma init_assertion_error:
  assumes "pngs_fn_prefix env \<noteq> jsons_fn_prefix env"
  shows "XRayDataset_init env store tr tf pickle pdir cfg = Inl AssertionError"
  using assms by (simp add: XRayDataset_init_def selected_def check_prefixes_cases)

lemma init_no_other_assertion:
  assumes eq: "pngs_fn_prefix env = jsons_fn_prefix env"
      and gkf: "gkf_split env (sorted_list_of_set (pngs env))
                  (map (\<lambda>fname. 0) (sorted_list_of_set (pngs env)))
                  (map dirname (sorted_list_of_set (pngs env))) \<noteq> Inl AssertionError"
      and ann: "\<forall>p. load_annotations env p \<noteq> Inl AssertionError"
  shows "XRayDataset_init env store tr tf pickle pdir cfg \<noteq> Inl AssertionError"
proof
  assume err: "XRayDataset_init env store tr tf pickle pdir cfg = Inl AssertionError"
  show False
  proof (cases "selected env cfg tr")
    case (Inl e)
    then have e: "e = AssertionError" using err by (simp add: XRayDataset_init_def)
    show False
    proof (cases "gkf_split env (sorted_list_of_set (pngs env))
                  (map (\<lambda>fname. 0) (sorted_list_of_set (pngs env)))
                  (map dirname (sorted_list_of_set (pngs env)))")
      case (Inl e')
      then show False using \<open>selected env cfg tr = Inl e\<close> e gkf
        by (simp add: selected_after_assertions [OF eq])
    next
      case (Inr folds)
      then have "select_folds tr (val_num cfg) (sorted_list_of_set (pngs env))
                  (sorted_list_of_set (jsons env)) 0 folds ([], []) = Inl AssertionError"
        using \<open>selected env cfg tr = Inl e\<close> e by (simp add: selected_after_assertions [OF eq])
      from select_folds_error [OF this] show False by simp
    qed
  next
    case (Inr sel)
    obtain f l where sel: "sel = (f, l)" by (cases sel)
    from err Inr sel have pk: pickle
      and "build_cache env cfg (class2ind (DATA_CLASSES cfg)) pdir (zip f l) store = Inl AssertionError"
      by (auto simp: XRayDataset_init_def split: if_splits sum.splits)
    from build_cache_error [OF this(2)] obtain n l' where
      "create_data env cfg (class2ind (DATA_CLASSES cfg)) n l' = Inl AssertionError" by blast
    from create_data_error [OF this] ann show False by auto
  qed
qed

text \<open>
  Claim C4. The two assertions fail exactly when the set of PNG prefixes differs from the
  set of JSON prefixes. When the sets differ the constructor ends with the assertion
  error; when they are equal it goes on to the group split. No other step of the
  constructor raises an assertion error of its own: unless the split or the reading of
  the annotations, which lie outside the program, raise one, the constructor ends with
  an assertion error if and only if the two sets differ.
\<close>

theorem init_assertion_iff:
  "(check_prefixes env = Inl AssertionError \<longleftrightarrow> pngs_fn_prefix env \<noteq> jsons_fn_prefix env) \<and>
   (pngs_fn_prefix env \<noteq> jsons_fn_prefix env \<longrightarrow>
      XRayDataset_init env store tr tf pickle pdir cfg = Inl AssertionError) \<and>
   (pngs_fn_prefix env = jsons_fn_prefix env \<longrightarrow>
      check_prefixes env = Inr () \<and>
      selected env cfg tr =
        (case gkf_split env (sorted_list_of_set (pngs env))
                (map (\<lambda>fname. 0) (sorted_list_of_set (pngs env)))
                (map dirname (sorted_list_of_set (pngs env))) of
           Inl e \<Rightarrow> Inl e
         | Inr folds \<Rightarrow>
             select_folds tr (val_num cfg) (sorted_list_of_set (pngs env))
               (sorted_list_of_set (jsons env)) 0 folds ([], []))) \<and>
   (gkf_split env (sorted_list_of_set (pngs env))
        (map (\<lambda>fname. 0) (sorted_list_of_set (pngs env)))
        (map dirname (sorted_list_of_set (pngs env))) \<noteq> Inl AssertionError \<longrightarrow>
    (\<forall>p. load_annotations env p \<noteq> Inl AssertionError) \<longrightarrow>
      (XRayDataset_init env store tr tf pickle pdir cfg = Inl AssertionError \<longleftrightarrow>
       pngs_fn_prefix env \<noteq> jsons_fn_prefix env))"
  using init_assertion_error [of env store tr tf pickle pdir cfg]
    init_no_other_assertion [of env store tr tf pickle pdir cfg]
    selected_after_assertions [of env cfg tr]
  by (auto simp: check_prefixes_cases)

lemma example_prefixes:
  "pngs_fn_prefix example_env = jsons_fn_prefix example_env"
  "pngs_fn_prefix example_mismatch \<noteq> jsons_fn_prefix example_mismatch"
  by code_simp+

lemma example_externals:
  "gkf_split example_env (sorted_list_of_set (pngs example_env))
     (map (\<lambda>fname. 0) (sorted_list_of_set (pngs example_env)))
     (map dirname (sorted_list_of_set (pngs example_env))) \<noteq> Inl AssertionError"
  "\<forall>p. load_annotations example_env p \<noteq> Inl AssertionError"
  by (code_simp, simp add: example_env_def)

theorem init_assertion_iff_witness:
  "pngs_fn_prefix example_env = jsons_fn_prefix example_env \<and>
   check_prefixes example_env = Inr () \<and>
   XRayDataset_init example_env Map.empty True None True ''/cache'' example_config \<noteq>
     Inl AssertionError \<and>
   pngs_fn_prefix example_mismatch \<noteq> jsons_fn_prefix example_mismatch \<and>
   XRayDataset_init example_mismatch Map.empty True None True ''/cache'' example_config =
     Inl AssertionError"
  using init_assertion_iff [of example_env Map.empty True None True "''/cache''" example_config]
    init_assertion_iff [of example_mismatch Map.empty True None True "''/cache''" example_config]
    example_prefixes example_externals
  by simp

subsection \<open>The cache\<close>

lemma sep_notin_basename: "sep \<notin> set (basename p)"
  by (auto simp: basename_def dest: set_takeWhileD)

lemma path_join_plain:
  assumes "x \<noteq> []" "hd x \<noteq> sep"
  shows "path_join d x = (if d = [] \<or> last d = sep then d @ x else d @ sep # x)"
  using assms by (simp add: path_join_def)

lemma hd_cache_name:
  assumes "s \<noteq> []" "hd s \<noteq> sep"
  shows "basename p @ s \<noteq> [] \<and> hd (basename p @ s) \<noteq> sep"
proof (cases "basename p")
  case Nil
  then show ?thesis using assms by simp
next
  case (Cons c cs)
  then have "c \<noteq> sep" using sep_notin_basename [of p] by auto
  then show ?thesis using Cons by simp
qed

lemma cache_path_eq_iff:
  assumes "s \<noteq> []" "hd s \<noteq> sep" "t \<noteq> []" "hd t \<noteq> sep"
  shows "path_join d (basename p @ s) = path_join d (basename q @ t) \<longleftrightarrow>
         basename p @ s = basename q @ t"
  using hd_cache_name [OF assms(1,2), of p] hd_cache_name [OF assms(3,4), of q]
  by (simp add: path_join_plain)

lemma image_path_eq_iff:
  "image_npy_path d p = image_npy_path d q \<longleftrightarrow> basename p = basename q"
  unfolding image_npy_path_def by (subst cache_path_eq_iff) (simp_all add: sep_def)

lemma label_path_eq_iff:
  "label_npy_path d p = label_npy_path d q \<longleftrightarrow> basename p = basename q"
  unfolding label_npy_path_def by (subst cache_path_eq_iff) (simp_all add: sep_def)

lemma image_path_neq_label_path: "image_npy_path d p \<noteq> label_npy_path d q"
  unfolding image_npy_path_def label_npy_path_def
  by (subst cache_path_eq_iff) (simp_all add: sep_def)

text \<open>A cache file that is present is left as it is, and so is the label file beside it.\<close>

lemma build_cache_keeps:
  assumes "build_cache env cfg c2i pdir pairs st = Inr st'"
      and "st (image_npy_path pdir name) \<noteq> None"
  shows "st' (image_npy_path pdir name) = st (image_npy_path pdir name) \<and>
         st' (label_npy_path pdir name) = st (label_npy_path pdir name)"
  using assms
proof (induction pairs arbitrary: st)
  case Nil
  then show ?case by simp
next
  case (Cons pair pairs)
  obtain n l where pair: "pair = (n, l)" by (cases pair)
  show ?case
  proof (cases "st (image_npy_path pdir n) = None")
    case True
    then obtain data where
      rest: "build_cache env cfg c2i pdir pairs
              (st(image_npy_path pdir n \<mapsto> fst data, label_npy_path pdir n \<mapsto> snd data)) = Inr st'"
      using Cons.prems(1) unfolding pair by (auto split: sum.splits)
    from True Cons.prems(2) have ine: "image_npy_path pdir name \<noteq> image_npy_path pdir n"
      by auto
    then have "basename name \<noteq> basename n" by (simp add: image_path_eq_iff)
    then have lne: "label_npy_path pdir name \<noteq> label_npy_path pdir n"
      by (simp add: label_path_eq_iff)
    have same:
      "(st(image_npy_path pdir n \<mapsto> fst data, label_npy_path pdir n \<mapsto> snd data))
         (image_npy_path pdir name) = st (image_npy_path pdir name)"
      "(st(image_npy_path pdir n \<mapsto> fst data, label_npy_path pdir n \<mapsto> snd data))
         (label_npy_path pdir name) = st (label_npy_path pdir name)"
      using ine lne image_path_neq_label_path [of pdir name n]
        image_path_neq_label_path [of pdir n name]
      by simp_all
    show ?thesis using Cons.IH [OF rest] Cons.prems(2) unfolding same by simp
  next
    case False
    then have "build_cache env cfg c2i pdir pairs st = Inr st'"
      using Cons.prems(1) unfolding pair by (auto split: if_splits)
    then show ?thesis using Cons.prems(2) by (rule Cons.IH)
  qed
qed

text \<open>
  The two files of a basename absent from the cache are written at the first pair of
  that basename, from the arrays created for that pair.
\<close>

lemma build_cache_first:
  assumes "build_cache env cfg c2i pdir pairs st = Inr st'"
      and "k < length pairs"
      and "st (image_npy_path pdir (fst (pairs ! k))) = None"
  shows "\<exists>j\<le>k. basename (fst (pairs ! j)) = basename (fst (pairs ! k)) \<and>
           (\<forall>i<j. basename (fst (pairs ! i)) \<noteq> basename (fst (pairs ! k))) \<and>
           (\<exists>data. create_data env cfg c2i (fst (pairs ! j)) (snd (pairs ! j)) = Inr data \<and>
              st' (image_npy_path pdir (fst (pairs ! k))) = Some (fst data) \<and>
              st' (label_npy_path pdir (fst (pairs ! k))) = Some (snd data))"
  using assms
proof (induction pairs arbitrary: st k)
  case Nil
  then show ?case by simp
next
  case (Cons pair pairs)
  obtain n l where pair: "pair = (n, l)" by (cases pair)
  define name where "name = fst ((pair # pairs) ! k)"
  have absent: "st (image_npy_path pdir name) = None" using Cons.prems(3) by (simp add: name_def)
  have "\<exists>j\<le>k. basename (fst ((pair # pairs) ! j)) = basename name \<and>
           (\<forall>i<j. basename (fst ((pair # pairs) ! i)) \<noteq> basename name) \<and>
           (\<exists>data. create_data env cfg c2i (fst ((pair # pairs) ! j)) (snd ((pair # pairs) ! j)) =
                     Inr data \<and>
              st' (image_npy_path pdir name) = Some (fst data) \<and>
              st' (label_npy_path pdir name) = Some (snd data))"
  proof (cases "basename n = basename name")
    case True
    then have ip: "image_npy_path pdir name = image_npy_path pdir n"
      and lp: "label_npy_path pdir name = label_npy_path pdir n"
      by (simp_all add: image_path_eq_iff label_path_eq_iff)
    from absent have "st (image_npy_path pdir n) = None" unfolding ip .
    then obtain data where cd: "create_data env cfg c2i n l = Inr data"
      and rest: "build_cache env cfg c2i pdir pairs
              (st(image_npy_path pdir n \<mapsto> fst data, label_npy_path pdir n \<mapsto> snd data)) = Inr st'"
      using Cons.prems(1) unfolding pair by (auto split: sum.splits)
    have "st' (image_npy_path pdir n) = Some (fst data) \<and>
          st' (label_npy_path pdir n) = Some (snd data)"
      using build_cache_keeps [OF rest, of n] image_path_neq_label_path [of pdir n n] by simp
    then show ?thesis using True cd unfolding ip lp pair by (intro exI [of _ 0]) simp
  next
    case False
    then obtain k' where k: "k = Suc k'" by (cases k) (simp_all add: name_def pair)
    have name': "name = fst (pairs ! k')" by (simp add: name_def k)
    have len: "k' < length pairs" using Cons.prems(2) k by simp
    from False have ine: "image_npy_path pdir name \<noteq> image_npy_path pdir n"
      by (simp add: image_path_eq_iff)
    have "\<exists>st1. build_cache env cfg c2i pdir pairs st1 = Inr st' \<and>
                st1 (image_npy_path pdir name) = None"
    proof (cases "st (image_npy_path pdir n) = None")
      case True
      then obtain data where
        rest: "build_cache env cfg c2i pdir pairs
                (st(image_npy_path pdir n \<mapsto> fst data, label_npy_path pdir n \<mapsto> snd data)) = Inr st'"
        using Cons.prems(1) unfolding pair by (auto split: sum.splits)
      have "(st(image_npy_path pdir n \<mapsto> fst data, label_npy_path pdir n \<mapsto> snd data))
              (image_npy_path pdir name) = None"
        using absent ine image_path_neq_label_path [of pdir name n] by simp
      with rest show ?thesis by blast
    next
      case False
      then have "build_cache env cfg c2i pdir pairs st = Inr st'"
        using Cons.prems(1) unfolding pair by (auto split: if_splits)
      with absent show ?thesis by blast
    qed
    then obtain st1 where rest: "build_cache env cfg c2i pdir pairs st1 = Inr st'"
      and absent1: "st1 (image_npy_path pdir (fst (pairs ! k'))) = None"
      unfolding name' by blast
    from Cons.IH [OF rest len absent1] obtain j where
      j: "j \<le> k'" "basename (fst (pairs ! j)) = basename name"
         "\<forall>i<j. basename (fst (pairs ! i)) \<noteq> basename name"
         "\<exists>data. create_data env cfg c2i (fst (pairs ! j)) (snd (pairs ! j)) = Inr data \<and>
              st' (image_npy_path pdir name) = Some (fst data) \<and>
              st' (label_npy_path pdir name) = Some (snd data)"
      unfolding name' by blast
    have "\<forall>i<Suc j. basename (fst ((pair # pairs) ! i)) \<noteq> basename name"
      using j(3) False unfolding All_less_Suc2 pair by simp
    then show ?thesis using j(1,2,4) k by (intro exI [of _ "Suc j"]) simp
  qed
  then show ?case unfolding name_def .
qed

lemma select_folds_lengths:
  "select_folds tr vn fs ls i folds (fa, la) = Inr (f, l) \<Longrightarrow> length fa = length la \<Longrightarrow>
   length f = length l"
proof (induction folds arbitrary: i fa la)
  case Nil
  then show ?case by simp
next
  case (Cons fold folds)
  obtain x y where fold: "fold = (x, y)" by (cases fold)
  have take_len: "\<And>xs zs. np_take xs y = Inr zs \<Longrightarrow> length zs = length y"
    by (auto simp: np_take_def split: if_splits)
  show ?case using Cons.prems unfolding fold
    by (auto split: if_splits sum.splits dest!: take_len intro: Cons.IH)
qed

lemma selected_lengths: "selected env cfg tr = Inr (f, l) \<Longrightarrow> length f = length l"
  by (auto simp: selected_def Let_def split: sum.splits dest: select_folds_lengths)

lemma load_item_reads_two_files:
  assumes "py_index (filenames ds) item = Inr name"
      and "st (image_npy_path (pickle_dir ds) name) = Some img"
      and "st (label_npy_path (pickle_dir ds) name) = Some lbl"
  shows "load_item ds st item = apply_transforms ds img lbl"
  using assms by (simp add: load_item_def)

text \<open>What \<open>__getitem__\<close> returns, from the arrays of the two files of the entry.\<close>

lemma getitem_of_loaded:
  assumes "py_index (filenames ds) item = Inr name"
      and "st (image_npy_path (pickle_dir ds) name) = Some img"
      and "st (label_npy_path (pickle_dir ds) name) = Some lbl"
  shows "XRayDataset_getitem env ds st item =
           (case apply_transforms ds img lbl of
              Inl e \<Rightarrow> Inl e
            | Inr p \<Rightarrow>
                Inr (from_numpy_float (f32 env) (transpose_201 (fst (sliding_window ds item p))),
                     from_numpy_float (f32 env) (transpose_201 (snd (sliding_window ds item p)))))"
  using assms
  by (simp add: XRayDataset_getitem_def load_item_reads_two_files [where name = name] Let_def
      split: sum.splits)

lemma getitem_reads_two_files:
  assumes "py_index (filenames ds) item = Inr name"
      and "st (image_npy_path (pickle_dir ds) name) = Some img"
      and "st (label_npy_path (pickle_dir ds) name) = Some lbl"
      and "st' (image_npy_path (pickle_dir ds) name) = Some img"
      and "st' (label_npy_path (pickle_dir ds) name) = Some lbl"
      and "f32 env' = f32 env"
  shows "XRayDataset_getitem env' ds st' item = XRayDataset_getitem env ds st item"
  using assms
  by (simp add: XRayDataset_getitem_def load_item_reads_two_files [where name = name]
      split: sum.splits)

lemma example_shared_selected:
  "selected example_shared_env example_shared_config True =
     Inr ([''ID002/image1.png'', ''ID003/image1.png'', ''ID004/image1.png'', ''ID005/image1.png''],
          [''ID002/image1.json'', ''ID003/image1.json'', ''ID004/image1.json'',
           ''ID005/image1.json''])"
  by code_simp

lemma example_shared_paths:
  "image_npy_path ''/cache'' ''ID002/image1.png'' = ''/cache/image1.png_image.npz''"
  "image_npy_path ''/cache'' ''ID003/image1.png'' = ''/cache/image1.png_image.npz''"
  "image_npy_path ''/cache'' ''ID004/image1.png'' = ''/cache/image1.png_image.npz''"
  "image_npy_path ''/cache'' ''ID005/image1.png'' = ''/cache/image1.png_image.npz''"
  "label_npy_path ''/cache'' ''ID002/image1.png'' = ''/cache/image1.png_label.npz''"
  "label_npy_path ''/cache'' ''ID003/image1.png'' = ''/cache/image1.png_label.npz''"
  by code_simp+

lemma example_shared_create:
  "create_data example_shared_env example_shared_config
     (class2ind (DATA_CLASSES example_shared_config)) ''ID002/image1.png'' ''ID002/image1.json'' =
   Inr ([[[1]]], [[[1]]])"
  "create_data example_shared_env example_shared_config
     (class2ind (DATA_CLASSES example_shared_config)) ''ID003/image1.png'' ''ID003/image1.json'' =
   Inr ([[[1 / 5]]], [[[0]]])"
  by code_simp+

lemma example_shared_cache:
  "build_cache example_shared_env example_shared_config
     (class2ind (DATA_CLASSES example_shared_config)) ''/cache''
     [(''ID002/image1.png'', ''ID002/image1.json''), (''ID003/image1.png'', ''ID003/image1.json''),
      (''ID004/image1.png'', ''ID004/image1.json''), (''ID005/image1.png'', ''ID005/image1.json'')]
     Map.empty = Inr example_shared_store"
  by (simp add: example_shared_paths example_shared_create example_shared_store_def)

lemma example_shared_no_window: "\<not> TRAIN_SLIDING_WINDOW example_shared_config"
  by (simp add: example_shared_config_def)

lemma example_shared_init:
  "XRayDataset_init example_shared_env Map.empty True None True ''/cache'' example_shared_config =
     Inr (example_shared_ds, example_shared_store)"
  by (simp add: XRayDataset_init_def example_shared_selected example_shared_cache
      example_shared_ds_def example_shared_no_window del: build_cache.simps)

lemma example_shared_item:
  "py_index (filenames example_shared_ds) 0 = Inr ''ID002/image1.png''"
  "py_index (filenames example_shared_ds) 1 = Inr ''ID003/image1.png''"
  "labelnames example_shared_ds ! 1 = ''ID003/image1.json''"
  by (simp_all add: example_shared_ds_def py_index_def)

lemma example_shared_files:
  "example_shared_store (path_join ''/cache'' (basename ''ID003/image1.png'' @ ''_image.npz'')) =
     Some [[[1]]]"
  "example_shared_store (path_join ''/cache'' (basename ''ID003/image1.png'' @ ''_label.npz'')) =
     Some [[[1]]]"
  using example_shared_paths
  by (simp_all add: image_npy_path_def label_npy_path_def example_shared_store_def)

lemma example_shared_tensors:
  "apply_transforms example_shared_ds img lbl = Inr (img, lbl)"
  "sliding_window example_shared_ds item p = p"
  by (simp_all add: apply_transforms_def sliding_window_def example_shared_ds_def
      example_shared_no_window)

lemma example_shared_cast:
  "from_numpy_float (f32 example_shared_env) (transpose_201 [[[1]]]) = [[[1]]]"
  by code_simp

lemma example_shared_getitem:
  "XRayDataset_getitem example_shared_env example_shared_ds example_shared_store 1 =
     Inr ([[[1]]], [[[1]]])"
proof -
  have "pickle_dir example_shared_ds = ''/cache''" by (simp add: example_shared_ds_def)
  then show ?thesis
    using getitem_of_loaded [OF example_shared_item(2), of example_shared_store "[[[1]]]" "[[[1]]]"
        example_shared_env] example_shared_files
    by (simp add: example_shared_tensors example_shared_cast image_npy_path_def
        label_npy_path_def)
qed

text \<open>
  Claim C3, amended. With \<open>use_pickle\<close> on and no cache file of any name present
  beforehand, the constructor leaves, for every selected example \<open>k\<close>, both the image file
  and the label file of its basename in the cache. They hold the two arrays created from
  the first selected example \<open>j\<close> of that basename, its image with its own label file:
  those of example \<open>k\<close> itself when no selected example before it has its basename, those
  of another example otherwise. \<open>__getitem__\<close> of an entry of example \<open>k\<close> returns these
  two arrays transformed, cut to the entry's window and cast; it returns the same from
  every store that holds them under the two paths, whatever the image and label files
  are.
\<close>

theorem cache_files_created:
  assumes init: "XRayDataset_init env store tr tf True pdir cfg = Inr (ds, store')"
      and empty: "\<forall>name. store (image_npy_path pdir name) = None \<and>
                         store (label_npy_path pdir name) = None"
  shows "\<exists>base labels.
           selected env cfg tr = Inr (base, labels) \<and> length labels = length base \<and>
           filenames ds = (if TRAIN_SLIDING_WINDOW cfg then sliding_names base else base) \<and>
           (\<forall>k<length base. \<exists>j\<le>k. \<exists>img lbl.
              basename (base ! j) = basename (base ! k) \<and>
              (\<forall>i<j. basename (base ! i) \<noteq> basename (base ! k)) \<and>
              create_data env cfg (CLASS2IND ds) (base ! j) (labels ! j) = Inr (img, lbl) \<and>
              store' (path_join pdir (basename (base ! k) @ ''_image.npz'')) = Some img \<and>
              store' (path_join pdir (basename (base ! k) @ ''_label.npz'')) = Some lbl \<and>
              (\<forall>item. py_index (filenames ds) item = Inr (base ! k) \<longrightarrow>
                 XRayDataset_getitem env ds store' item =
                   (case apply_transforms ds img lbl of
                      Inl e \<Rightarrow> Inl e
                    | Inr p \<Rightarrow>
                        Inr (from_numpy_float (f32 env)
                               (transpose_201 (fst (sliding_window ds item p))),
                             from_numpy_float (f32 env)
                               (transpose_201 (snd (sliding_window ds item p))))) \<and>
                 (\<forall>env' st.
                    f32 env' = f32 env \<longrightarrow>
                    st (path_join pdir (basename (base ! k) @ ''_image.npz'')) = Some img \<longrightarrow>
                    st (path_join pdir (basename (base ! k) @ ''_label.npz'')) = Some lbl \<longrightarrow>
                    XRayDataset_getitem env' ds st item =
                      XRayDataset_getitem env ds store' item)))"
proof -
  from init obtain base labels where
    sel: "selected env cfg tr = Inr (base, labels)" and
    bc: "build_cache env cfg (class2ind (DATA_CLASSES cfg)) pdir (zip base labels) store = Inr store'" and
    fn: "filenames ds = (if TRAIN_SLIDING_WINDOW cfg then sliding_names base else base)" and
    c2i: "CLASS2IND ds = class2ind (DATA_CLASSES cfg)" and
    pd: "pickle_dir ds = pdir"
    by (rule init_InrD) simp
  have len: "length base = length labels" using sel by (rule selected_lengths)
  have "\<exists>j\<le>k. \<exists>img lbl.
              basename (base ! j) = basename (base ! k) \<and>
              (\<forall>i<j. basename (base ! i) \<noteq> basename (base ! k)) \<and>
              create_data env cfg (CLASS2IND ds) (base ! j) (labels ! j) = Inr (img, lbl) \<and>
              store' (path_join pdir (basename (base ! k) @ ''_image.npz'')) = Some img \<and>
              store' (path_join pdir (basename (base ! k) @ ''_label.npz'')) = Some lbl \<and>
              (\<forall>item. py_index (filenames ds) item = Inr (base ! k) \<longrightarrow>
                 XRayDataset_getitem env ds store' item =
                   (case apply_transforms ds img lbl of
                      Inl e \<Rightarrow> Inl e
                    | Inr p \<Rightarrow>
                        Inr (from_numpy_float (f32 env)
                               (transpose_201 (fst (sliding_window ds item p))),
                             from_numpy_float (f32 env)
                               (transpose_201 (snd (sliding_window ds item p))))) \<and>
                 (\<forall>env' st.
                    f32 env' = f32 env \<longrightarrow>
                    st (path_join pdir (basename (base ! k) @ ''_image.npz'')) = Some img \<longrightarrow>
                    st (path_join pdir (basename (base ! k) @ ''_label.npz'')) = Some lbl \<longrightarrow>
                    XRayDataset_getitem env' ds st item =
                      XRayDataset_getitem env ds store' item))"
    if k: "k < length base" for k
  proof -
    have nth: "\<And>i. i \<le> k \<Longrightarrow> fst (zip base labels ! i) = base ! i \<and>
                               snd (zip base labels ! i) = labels ! i"
      using k len by simp
    have "k < length (zip base labels)" using k len by simp
    moreover have "store (image_npy_path pdir (fst (zip base labels ! k))) = None"
      using empty by simp
    ultimately obtain j data where
      jk: "j \<le> k" and
      bn: "basename (fst (zip base labels ! j)) = basename (fst (zip base labels ! k))" and
      first: "\<forall>i<j. basename (fst (zip base labels ! i)) \<noteq> basename (fst (zip base labels ! k))" and
      cd: "create_data env cfg (class2ind (DATA_CLASSES cfg)) (fst (zip base labels ! j))
             (snd (zip base labels ! j)) = Inr data" and
      im: "store' (image_npy_path pdir (fst (zip base labels ! k))) = Some (fst data)" and
      lb: "store' (label_npy_path pdir (fst (zip base labels ! k))) = Some (snd data)"
      using build_cache_first [OF bc] by blast
    have bn': "basename (base ! j) = basename (base ! k)" using bn nth jk by simp
    have first': "\<forall>i<j. basename (base ! i) \<noteq> basename (base ! k)"
      using first nth jk by simp
    have cd': "create_data env cfg (CLASS2IND ds) (base ! j) (labels ! j) = Inr (fst data, snd data)"
      using cd nth [OF jk] unfolding c2i by simp
    have im': "store' (image_npy_path pdir (base ! k)) = Some (fst data)" using im nth by simp
    have lb': "store' (label_npy_path pdir (base ! k)) = Some (snd data)" using lb nth by simp
    have rd: "\<forall>item. py_index (filenames ds) item = Inr (base ! k) \<longrightarrow>
                 XRayDataset_getitem env ds store' item =
                   (case apply_transforms ds (fst data) (snd data) of
                      Inl e \<Rightarrow> Inl e
                    | Inr p \<Rightarrow>
                        Inr (from_numpy_float (f32 env)
                               (transpose_201 (fst (sliding_window ds item p))),
                             from_numpy_float (f32 env)
                               (transpose_201 (snd (sliding_window ds item p))))) \<and>
                 (\<forall>env' st.
                    f32 env' = f32 env \<longrightarrow>
                    st (image_npy_path pdir (base ! k)) = Some (fst data) \<longrightarrow>
                    st (label_npy_path pdir (base ! k)) = Some (snd data) \<longrightarrow>
                    XRayDataset_getitem env' ds st item =
                      XRayDataset_getitem env ds store' item)"
      using getitem_of_loaded [of ds _ "base ! k" store' "fst data" "snd data" env]
        getitem_reads_two_files [of ds _ "base ! k" store' "fst data" "snd data" _ _ env] im' lb'
      unfolding pd by blast
    show ?thesis
      using jk bn' first' cd' im' lb' rd unfolding image_npy_path_def label_npy_path_def
      by blast
  qed
  then show ?thesis using sel fn len by simp
qed

text \<open>
  The claim as it is worded fails when two selected examples have one basename. The
  constructor, from an empty cache, writes the two files of \<open>image1.png\<close> at the example of
  patient \<open>ID002\<close> and skips the example of patient \<open>ID003\<close>, whose image file is then
  present: the files the second entry reads hold the arrays of the first example, not
  the image \<open>[[[1 / 5]]]\<close> and the label \<open>[[[0]]]\<close> created from its own image and label
  file, and \<open>__getitem__\<close> returns the first example's.
\<close>

theorem cache_files_created_counterexample:
  "XRayDataset_init example_shared_env Map.empty True None True ''/cache'' example_shared_config =
     Inr (example_shared_ds, example_shared_store) \<and>
   py_index (filenames example_shared_ds) 1 = Inr ''ID003/image1.png'' \<and>
   labelnames example_shared_ds ! 1 = ''ID003/image1.json'' \<and>
   create_data example_shared_env example_shared_config (CLASS2IND example_shared_ds)
     ''ID003/image1.png'' ''ID003/image1.json'' = Inr ([[[1 / 5]]], [[[0]]]) \<and>
   example_shared_store (path_join ''/cache'' (basename ''ID003/image1.png'' @ ''_image.npz'')) =
     Some [[[1]]] \<and>
   example_shared_store (path_join ''/cache'' (basename ''ID003/image1.png'' @ ''_label.npz'')) =
     Some [[[1]]] \<and>
   XRayDataset_getitem example_shared_env example_shared_ds example_shared_store 1 =
     Inr ([[[1]]], [[[1]]])"
proof -
  have "CLASS2IND example_shared_ds = class2ind (DATA_CLASSES example_shared_config)"
    by (simp add: example_shared_ds_def)
  then show ?thesis
    using example_shared_init example_shared_item(2,3) example_shared_create(2)
      example_shared_files example_shared_getitem
    by simp
qed

lemma example_shared_basename:
  "basename ''ID002/image1.png'' = basename ''ID003/image1.png''"
  by code_simp

theorem cache_files_created_witness:
  "XRayDataset_init example_shared_env Map.empty True None True ''/cache'' example_shared_config =
     Inr (example_shared_ds, example_shared_store) \<and>
   py_index (filenames example_shared_ds) 0 = Inr ''ID002/image1.png'' \<and>
   create_data example_shared_env example_shared_config (CLASS2IND example_shared_ds)
     ''ID002/image1.png'' ''ID002/image1.json'' = Inr ([[[1]]], [[[1]]]) \<and>
   XRayDataset_getitem example_shared_env example_shared_ds example_shared_store 0 =
     Inr ([[[1]]], [[[1]]]) \<and>
   py_index (filenames example_shared_ds) 1 = Inr ''ID003/image1.png'' \<and>
   XRayDataset_getitem example_shared_env example_shared_ds example_shared_store 1 =
     Inr ([[[1]]], [[[1]]])"
proof -
  have empty: "\<forall>name. Map.empty (image_npy_path ''/cache'' name) = None \<and>
                      Map.empty (label_npy_path ''/cache'' name) = None" by simp
  have c2i: "CLASS2IND example_shared_ds = class2ind (DATA_CLASSES example_shared_config)"
    by (simp add: example_shared_ds_def)
  from cache_files_created [OF example_shared_init empty]
  have "XRayDataset_getitem example_shared_env example_shared_ds example_shared_store 0 =
          Inr ([[[1]]], [[[1]]]) \<and>
        XRayDataset_getitem example_shared_env example_shared_ds example_shared_store 1 =
          Inr ([[[1]]], [[[1]]])"
  proof (elim exE conjE, goal_cases)
    case (1 base labels)
    from 1(1) have base:
      "base = [''ID002/image1.png'', ''ID003/image1.png'', ''ID004/image1.png'',
               ''ID005/image1.png'']"
      and labels:
      "labels = [''ID002/image1.json'', ''ID003/image1.json'', ''ID004/image1.json'',
                 ''ID005/image1.json'']"
      by (simp_all add: example_shared_selected)
    have k0: "0 < length base" and k1: "1 < length base" by (simp_all add: base)
    have first: "XRayDataset_getitem example_shared_env example_shared_ds example_shared_store 0 =
          Inr ([[[1]]], [[[1]]])"
      using 1(4) [rule_format, OF k0]
    proof (elim exE conjE, goal_cases)
      case (1 j img lbl)
      from 1(1) have j: "j = 0" by simp
      from 1(4) have data: "img = [[[1]]] \<and> lbl = [[[1]]]"
        unfolding j base labels c2i by (auto simp: example_shared_create(1))
      have "py_index (filenames example_shared_ds) 0 = Inr (base ! 0)"
        by (simp add: base example_shared_item(1))
      from 1(7) [rule_format, OF this, THEN conjunct1] data show ?case
        by (simp add: example_shared_tensors example_shared_cast)
    qed
    have second: "XRayDataset_getitem example_shared_env example_shared_ds example_shared_store 1 =
          Inr ([[[1]]], [[[1]]])"
      using 1(4) [rule_format, OF k1]
    proof (elim exE conjE, goal_cases)
      case (1 j img lbl)
      have "j \<noteq> 1"
      proof
        assume "j = 1"
        with 1(3) have "basename (base ! 0) \<noteq> basename (base ! 1)" by simp
        then show False by (simp add: base example_shared_basename)
      qed
      with 1(1) have j: "j = 0" by simp
      from 1(4) have data: "img = [[[1]]] \<and> lbl = [[[1]]]"
        unfolding j base labels c2i by (auto simp: example_shared_create(1))
      have "py_index (filenames example_shared_ds) 1 = Inr (base ! 1)"
        by (simp add: base example_shared_item(2))
      from 1(7) [rule_format, OF this, THEN conjunct1] data show ?case
        by (simp add: example_shared_tensors example_shared_cast)
    qed
    from first second show ?case ..
  qed
  then show ?thesis
    using example_shared_init example_shared_item(1,2) example_shared_create(1) c2i by simp
qed

subsection \<open>The split into training and validation files\<close>

lemma filter_length_one_unique:
  assumes "length (filter P [0..<n]) = 1" "k < n" "P k" "k' < n" "P k'"
  shows "k = k'"
proof (rule ccontr)
  assume "k \<noteq> k'"
  have "distinct (filter P [0..<n])" by simp
  moreover have "k \<in> set (filter P [0..<n])" "k' \<in> set (filter P [0..<n])"
    using assms by simp_all
  ultimately have "card {k, k'} \<le> length (filter P [0..<n])"
    by (metis card_mono distinct_card List.finite_set insert_subset empty_subsetI)
  then show False using \<open>k \<noteq> k'\<close> assms(1) by simp
qed

lemma filter_length_one_ex:
  assumes "length (filter P [0..<n]) = 1"
  shows "\<exists>k<n. P k"
proof -
  from assms obtain k where "filter P [0..<n] = [k]"
    by (cases "filter P [0..<n]") auto
  then have "k \<in> set (filter P [0..<n])" by simp
  then show ?thesis by auto
qed

lemma group_kfold_cover:
  assumes "group_kfold_splits n groups folds" "i < length groups"
  shows "\<exists>k<n. i \<in> set (snd (folds ! k))"
  using assms filter_length_one_ex [of "\<lambda>k. i \<in> set (snd (folds ! k))" n]
  by (simp add: group_kfold_splits_def list_all_iff)

lemma group_kfold_in_range:
  assumes "group_kfold_splits n groups folds" "k < n" "i \<in> set (snd (folds ! k))"
  shows "i < length groups"
  using assms by (auto simp: group_kfold_splits_def list_all_iff)

lemma group_kfold_unique:
  assumes "group_kfold_splits n groups folds"
      and "k < n" "i \<in> set (snd (folds ! k))" "k' < n" "i \<in> set (snd (folds ! k'))"
  shows "k = k'"
proof -
  have "i < length groups" using assms(1-3) by (rule group_kfold_in_range)
  then have "length (filter (\<lambda>k. i \<in> set (snd (folds ! k))) [0..<n]) = 1"
    using assms(1) by (simp add: group_kfold_splits_def list_all_iff)
  then show ?thesis using assms(2-5) by (rule filter_length_one_unique)
qed

lemma group_kfold_group:
  assumes "group_kfold_splits n groups folds"
      and "k < n" "i \<in> set (snd (folds ! k))" "j < length groups" "groups ! j = groups ! i"
  shows "j \<in> set (snd (folds ! k))"
proof -
  have "\<forall>k\<in>set [0..<n]. \<forall>i \<in> set (snd (folds ! k)).
          \<forall>j\<in>set [0..<length groups]. groups ! j = groups ! i \<longrightarrow> j \<in> set (snd (folds ! k))"
    using assms(1) unfolding group_kfold_splits_def list_all_iff by blast
  moreover have "k \<in> set [0..<n]" "j \<in> set [0..<length groups]" using assms by simp_all
  ultimately show ?thesis using assms(3,5) by blast
qed

lemma np_take_Inr: "np_take xs ys = Inr zs \<Longrightarrow> zs = map (\<lambda>i. xs ! i) ys"
  by (auto simp: np_take_def split: if_splits)

lemma upt_0_Suc_Cons: "[0..<Suc n] = 0 # map Suc [0..<n]"
  by (simp add: upt_conv_Cons map_Suc_upt del: upt_Suc)

lemma select_folds_train:
  "select_folds True vn fs ls i folds (fa, la) = Inr (f, l) \<Longrightarrow>
   f = fa @ concat (map (\<lambda>k. map (\<lambda>j. fs ! j) (snd (folds ! k)))
                     (filter (\<lambda>k. int (i + k) \<noteq> vn) [0..<length folds]))"
proof (induction folds arbitrary: i fa la)
  case Nil
  then show ?case by simp
next
  case (Cons fold folds)
  obtain x y where fold: "fold = (x, y)" by (cases fold)
  have shift: "concat (map (\<lambda>k. map (\<lambda>j. fs ! j) (snd ((fold # folds) ! k)))
                     (filter (\<lambda>k. int (i + k) \<noteq> vn) (map Suc [0..<length folds]))) =
               concat (map (\<lambda>k. map (\<lambda>j. fs ! j) (snd (folds ! k)))
                     (filter (\<lambda>k. int (Suc i + k) \<noteq> vn) [0..<length folds]))"
    by (simp add: filter_map comp_def ac_simps)
  show ?case
  proof (cases "int i = vn")
    case True
    then have "select_folds True vn fs ls (Suc i) folds (fa, la) = Inr (f, l)"
      using Cons.prems unfolding fold by simp
    from Cons.IH [OF this] show ?thesis
      using True shift by (simp add: upt_0_Suc_Cons del: upt_Suc)
  next
    case False
    then obtain fy ly where fy: "np_take fs y = Inr fy"
      and "select_folds True vn fs ls (Suc i) folds (fa @ fy, la @ ly) = Inr (f, l)"
      using Cons.prems unfolding fold by (auto split: sum.splits)
    from Cons.IH [OF this(2)] show ?thesis
      using False shift np_take_Inr [OF fy] fold by (simp add: upt_0_Suc_Cons del: upt_Suc)
  qed
qed

lemma select_folds_valid:
  "select_folds False vn fs ls i folds acc = Inr (f, l) \<Longrightarrow>
   int i \<le> vn \<Longrightarrow> vn < int (i + length folds) \<Longrightarrow>
   f = map (\<lambda>j. fs ! j) (snd (folds ! (nat vn - i)))"
proof (induction folds arbitrary: i acc)
  case Nil
  then show ?case by simp
next
  case (Cons fold folds)
  obtain x y where fold: "fold = (x, y)" by (cases fold)
  obtain fa la where acc: "acc = (fa, la)" by (cases acc)
  show ?case
  proof (cases "int i = vn")
    case True
    then obtain fy where "np_take fs y = Inr fy" "f = fy"
      using Cons.prems(1) unfolding fold acc by (auto split: sum.splits)
    then show ?thesis using True np_take_Inr fold by auto
  next
    case False
    then have rest: "select_folds False vn fs ls (Suc i) folds (fa, la) = Inr (f, l)"
      using Cons.prems(1) unfolding fold acc by simp
    have "int (Suc i) \<le> vn" "vn < int (Suc i + length folds)"
      using False Cons.prems(2,3) by simp_all
    from Cons.IH [OF rest this] have "f = map (\<lambda>j. fs ! j) (snd (folds ! (nat vn - Suc i)))" .
    moreover have "nat vn - i = Suc (nat vn - Suc i)" using False Cons.prems(2) by linarith
    ultimately show ?thesis by simp
  qed
qed

lemma selected_folds:
  assumes "selected env cfg tr = Inr (f, l)"
      and "gkf_split env (sorted_list_of_set (pngs env))
             (map (\<lambda>fname. 0) (sorted_list_of_set (pngs env)))
             (map dirname (sorted_list_of_set (pngs env))) = Inr folds"
  shows "select_folds tr (val_num cfg) (sorted_list_of_set (pngs env))
           (sorted_list_of_set (jsons env)) 0 folds ([], []) = Inr (f, l)"
  using assms by (auto simp: selected_def Let_def split: sum.splits)

text \<open>
  Claim C2. For one configuration with \<open>VAL_NUM\<close> among the five fold numbers, and a
  group split that keeps its promise, the validation list is the test part of fold
  \<open>VAL_NUM\<close> of the split of the sorted file names grouped by directory, and the
  training list is the test parts of the other four folds in their order (each name nine
  times under the sliding window). The two lists have no file in common, together they
  hold every PNG file under the image root, and no directory has files in both.
\<close>

theorem train_valid_split:
  assumes tr: "XRayDataset_init env store1 True tf1 pickle1 pdir1 cfg = Inr (train_ds, store1')"
      and va: "XRayDataset_init env store2 False tf2 pickle2 pdir2 cfg = Inr (valid_ds, store2')"
      and gkf: "gkf_split env (sorted_list_of_set (pngs env))
                  (map (\<lambda>fname. 0) (sorted_list_of_set (pngs env)))
                  (map dirname (sorted_list_of_set (pngs env))) = Inr folds"
      and ok: "group_kfold_splits 5 (map dirname (sorted_list_of_set (pngs env))) folds"
      and vn: "0 \<le> val_num cfg" "val_num cfg < 5"
  shows "set (filenames train_ds) \<inter> set (filenames valid_ds) = {} \<and>
         set (filenames train_ds) \<union> set (filenames valid_ds) = pngs env \<and>
         dirname ` set (filenames train_ds) \<inter> dirname ` set (filenames valid_ds) = {} \<and>
         filenames valid_ds =
           (let names = map (\<lambda>j. sorted_list_of_set (pngs env) ! j)
                          (snd (folds ! nat (val_num cfg)))
            in if TRAIN_SLIDING_WINDOW cfg then sliding_names names else names) \<and>
         filenames train_ds =
           (let names = concat (map (\<lambda>k. map (\<lambda>j. sorted_list_of_set (pngs env) ! j)
                                            (snd (folds ! k)))
                                  (filter (\<lambda>k. int k \<noteq> val_num cfg) [0..<5]))
            in if TRAIN_SLIDING_WINDOW cfg then sliding_names names else names)"
proof -
  define fs where "fs = sorted_list_of_set (pngs env)"
  define groups where "groups = map dirname fs"
  define v where "v = nat (val_num cfg)"
  define tnames where
    "tnames = concat (map (\<lambda>k. map (\<lambda>j. fs ! j) (snd (folds ! k)))
                       (filter (\<lambda>k. int k \<noteq> val_num cfg) [0..<5]))"
  define vnames where "vnames = map (\<lambda>j. fs ! j) (snd (folds ! v))"
  have v5: "v < 5" and vint: "int v = val_num cfg" using vn by (simp_all add: v_def)
  have len: "length folds = 5" using ok by (simp add: group_kfold_splits_def)
  have ok': "group_kfold_splits 5 groups folds" using ok by (simp add: groups_def fs_def)
  have lg: "length groups = length fs" by (simp add: groups_def)
  have dist: "distinct fs" and setfs: "set fs = pngs env"
    by (simp_all add: fs_def finite_pngs)
  \<comment> \<open>the two lists\<close>
  from tr obtain tf tl where
    tsel: "selected env cfg True = Inr (tf, tl)" and
    tfn: "filenames train_ds = (if TRAIN_SLIDING_WINDOW cfg then sliding_names tf else tf)"
    by (rule init_InrD) simp
  from va obtain vf vl where
    vsel: "selected env cfg False = Inr (vf, vl)" and
    vfn: "filenames valid_ds = (if TRAIN_SLIDING_WINDOW cfg then sliding_names vf else vf)"
    by (rule init_InrD) simp
  have "tf = [] @ tnames"
    using select_folds_train [OF selected_folds [OF tsel gkf]]
    by (simp add: tnames_def fs_def len)
  then have tf: "tf = tnames" by simp
  have vf: "vf = vnames"
    using select_folds_valid [OF selected_folds [OF vsel gkf]] vn len
    by (simp add: vnames_def fs_def v_def)
  have tset: "set (filenames train_ds) = set tnames"
    using tfn tf by (simp add: set_sliding_names)
  have vset: "set (filenames valid_ds) = set vnames"
    using vfn vf by (simp add: set_sliding_names)
  \<comment> \<open>their members, by index\<close>
  have tmem: "name \<in> set tnames \<longleftrightarrow>
                (\<exists>k j. k < 5 \<and> k \<noteq> v \<and> j \<in> set (snd (folds ! k)) \<and> name = fs ! j)" for name
    using vint by (auto simp: tnames_def)
  have vmem: "name \<in> set vnames \<longleftrightarrow> (\<exists>j. j \<in> set (snd (folds ! v)) \<and> name = fs ! j)" for name
    by (auto simp: vnames_def)
  have range: "j < length fs" if "k < 5" "j \<in> set (snd (folds ! k))" for k j
    using group_kfold_in_range [OF ok' that] lg by simp
  have disjoint: "set tnames \<inter> set vnames = {}"
  proof (rule ccontr)
    assume "set tnames \<inter> set vnames \<noteq> {}"
    then obtain name where "name \<in> set tnames" "name \<in> set vnames" by blast
    then obtain k j j' where k: "k < 5" "k \<noteq> v" and j: "j \<in> set (snd (folds ! k))"
      and j': "j' \<in> set (snd (folds ! v))" and eq: "fs ! j = fs ! j'"
      unfolding tmem vmem by metis
    have "j = j'" using eq dist range [OF k(1) j] range [OF v5 j']
      by (simp add: nth_eq_iff_index_eq)
    then have "k = v" using group_kfold_unique [OF ok' k(1) j v5] j' by simp
    then show False using k(2) by simp
  qed
  have cover: "set tnames \<union> set vnames = pngs env"
  proof (intro equalityI subsetI)
    fix name assume "name \<in> set tnames \<union> set vnames"
    then obtain k j where "k < 5" "j \<in> set (snd (folds ! k))" "name = fs ! j"
      unfolding Un_iff tmem vmem using v5 by blast
    then show "name \<in> pngs env" using range setfs nth_mem by metis
  next
    fix name assume "name \<in> pngs env"
    then obtain j where j: "j < length fs" "name = fs ! j"
      using setfs by (metis in_set_conv_nth)
    then obtain k where "k < 5" "j \<in> set (snd (folds ! k))"
      using group_kfold_cover [OF ok'] lg by auto
    then show "name \<in> set tnames \<union> set vnames"
      using j(2) unfolding Un_iff tmem vmem by (cases "k = v") blast+
  qed
  have groups_apart: "dirname ` set tnames \<inter> dirname ` set vnames = {}"
  proof (rule ccontr)
    assume "dirname ` set tnames \<inter> dirname ` set vnames \<noteq> {}"
    then obtain a b where "a \<in> set tnames" "b \<in> set vnames" "dirname a = dirname b" by blast
    then obtain k j j' where k: "k < 5" "k \<noteq> v" and j: "j \<in> set (snd (folds ! k))"
      and j': "j' \<in> set (snd (folds ! v))" and eq: "dirname (fs ! j) = dirname (fs ! j')"
      unfolding tmem vmem by metis
    have "groups ! j' = groups ! j"
      using eq range [OF k(1) j] range [OF v5 j'] by (simp add: groups_def)
    moreover have "j' < length groups" using range [OF v5 j'] lg by simp
    ultimately have "j' \<in> set (snd (folds ! k))"
      using group_kfold_group [OF ok' k(1) j] by blast
    then have "k = v" using group_kfold_unique [OF ok' k(1) _ v5 j'] by simp
    then show False using k(2) by simp
  qed
  show ?thesis
    using disjoint cover groups_apart tfn vfn
    unfolding tset vset tf vf Let_def tnames_def vnames_def fs_def v_def by simp
qed

lemma example_selected_train:
  "selected example_env example_config True =
     Inr ([''ID002/b.png'', ''ID003/c.png'', ''ID004/d.png'', ''ID005/e.png''],
          [''ID002/b.json'', ''ID003/c.json'', ''ID004/d.json'', ''ID005/e.json''])"
  by code_simp

lemma example_init_train:
  "XRayDataset_init example_env Map.empty True None False ''/cache'' example_config =
     Inr (\<lparr> is_train = True, transforms = None, use_pickle = False, pickle_dir = ''/cache'',
            config = example_config,
            CLASS2IND = class2ind (DATA_CLASSES example_config),
            IND2CLASS = ind2class (DATA_CLASSES example_config),
            filenames =
              sliding_names [''ID002/b.png'', ''ID003/c.png'', ''ID004/d.png'', ''ID005/e.png''],
            labelnames =
              sliding_names [''ID002/b.png'', ''ID003/c.png'', ''ID004/d.png'', ''ID005/e.png''] \<rparr>,
          Map.empty)"
  by (simp add: XRayDataset_init_def example_selected_train) (simp add: example_config_def)

lemma example_split:
  "gkf_split example_env (sorted_list_of_set (pngs example_env))
     (map (\<lambda>fname. 0) (sorted_list_of_set (pngs example_env)))
     (map dirname (sorted_list_of_set (pngs example_env))) = Inr example_folds"
  "group_kfold_splits 5 (map dirname (sorted_list_of_set (pngs example_env))) example_folds"
  "0 \<le> val_num example_config" "val_num example_config < 5"
  by code_simp+

theorem train_valid_split_witness:
  "\<exists>train_ds valid_ds store1 store2.
     XRayDataset_init example_env Map.empty True None False ''/cache'' example_config =
       Inr (train_ds, store1) \<and>
     XRayDataset_init example_env Map.empty False None False ''/cache'' example_config =
       Inr (valid_ds, store2) \<and>
     set (filenames train_ds) \<inter> set (filenames valid_ds) = {} \<and>
     set (filenames train_ds) \<union> set (filenames valid_ds) = pngs example_env \<and>
     dirname ` set (filenames train_ds) \<inter> dirname ` set (filenames valid_ds) = {}"
proof -
  obtain train_ds store1 where
    t: "XRayDataset_init example_env Map.empty True None False ''/cache'' example_config =
          Inr (train_ds, store1)"
    by (rule that) (rule example_init_train)
  obtain valid_ds store2 where
    v: "XRayDataset_init example_env Map.empty False None False ''/cache'' example_config =
          Inr (valid_ds, store2)"
    by (rule that) (rule example_init_valid)
  note split = train_valid_split [OF t v example_split]
  have "set (filenames train_ds) \<inter> set (filenames valid_ds) = {}"
    using split by (rule conjunct1)
  moreover have "set (filenames train_ds) \<union> set (filenames valid_ds) = pngs example_env"
    using split [THEN conjunct2] by (rule conjunct1)
  moreover have "dirname ` set (filenames train_ds) \<inter> dirname ` set (filenames valid_ds) = {}"
    using split [THEN conjunct2, THEN conjunct2] by (rule conjunct1)
  ultimately show ?thesis using t v by blast
qed

section \<open>Properties of the training loop\<close>

subsection \<open>Gradient accumulation\<close>

lemma train_batches_fp16:
  assumes "TRAIN_FP16 cfg" "accumulation_steps cfg \<noteq> 0"
  shows "train_batches cfg n s losses =
           Inr (concat (map (\<lambda>(step, loss).
                  ScaledBackward (loss / real_of_int (accumulation_steps cfg)) #
                  (if (int step + 1) mod accumulation_steps cfg = 0 \<or> step + 1 = n
                   then [ScalerStep, ScalerUpdate, ZeroGrad] else []))
                (enumerate s losses)))"
  using assms by (induction losses arbitrary: s) (simp_all add: train_step_def)

lemma train_batches_fp32:
  assumes "\<not> TRAIN_FP16 cfg"
  shows "train_batches cfg n s losses =
           Inr (concat (map (\<lambda>loss. [Backward loss, OptimizerStep]) losses))"
  using assms by (induction losses arbitrary: s) (simp_all add: train_step_def)

text \<open>
  Claim C5. With FP16 on and \<open>ACCUMULATION_STEPS = k\<close> configured, \<open>k\<close> not zero, the
  training part of an epoch is: the gradients are zeroed, then every batch sends its loss
  divided by \<open>k\<close> through the scaled backward pass, and exactly the batches with
  \<open>(step + 1) mod k = 0\<close> and the last batch are followed by the step of the scaler, its
  update and the zeroing of the gradients. Without \<open>ACCUMULATION_STEPS\<close> the loop behaves
  as with \<open>k = 1\<close>: every batch is followed by the step.
\<close>

theorem fp16_accumulation_schedule:
  assumes "TRAIN_FP16 cfg"
  shows "(\<forall>k. TRAIN_ACCUMULATION_STEPS cfg = Some k \<longrightarrow> k \<noteq> 0 \<longrightarrow>
            train_one_epoch cfg losses =
              Inr (ModelTrain # ZeroGrad #
                   concat (map (\<lambda>(step, loss).
                       ScaledBackward (loss / real_of_int k) #
                       (if (int step + 1) mod k = 0 \<or> step + 1 = length losses
                        then [ScalerStep, ScalerUpdate, ZeroGrad] else []))
                     (enumerate 0 losses)))) \<and>
         (TRAIN_ACCUMULATION_STEPS cfg = None \<longrightarrow>
            accumulation_steps cfg = 1 \<and>
            train_one_epoch cfg losses =
              Inr (ModelTrain # ZeroGrad #
                   concat (map (\<lambda>loss. [ScaledBackward loss, ScalerStep, ScalerUpdate, ZeroGrad])
                     losses)))"
proof (intro conjI allI impI)
  fix k assume "TRAIN_ACCUMULATION_STEPS cfg = Some k" "k \<noteq> 0"
  then have "accumulation_steps cfg = k" by (simp add: accumulation_steps_def)
  then show "train_one_epoch cfg losses =
              Inr (ModelTrain # ZeroGrad #
                   concat (map (\<lambda>(step, loss).
                       ScaledBackward (loss / real_of_int k) #
                       (if (int step + 1) mod k = 0 \<or> step + 1 = length losses
                        then [ScalerStep, ScalerUpdate, ZeroGrad] else []))
                     (enumerate 0 losses)))"
    using train_batches_fp16 [OF assms, of "length losses" 0 losses] \<open>k \<noteq> 0\<close>
    by (simp add: train_one_epoch_def)
next
  assume none: "TRAIN_ACCUMULATION_STEPS cfg = None"
  then show one: "accumulation_steps cfg = 1" by (simp add: accumulation_steps_def)
  have "concat (map (\<lambda>(step, loss).
                  ScaledBackward (loss / real_of_int 1) #
                  (if (int step + 1) mod 1 = 0 \<or> step + 1 = n
                   then [ScalerStep, ScalerUpdate, ZeroGrad] else []))
                (enumerate s losses)) =
        concat (map (\<lambda>loss. [ScaledBackward loss, ScalerStep, ScalerUpdate, ZeroGrad]) losses)"
    for n s
    by (induction losses arbitrary: s) simp_all
  then show "train_one_epoch cfg losses =
              Inr (ModelTrain # ZeroGrad #
                   concat (map (\<lambda>loss. [ScaledBackward loss, ScalerStep, ScalerUpdate, ZeroGrad])
                     losses))"
    using train_batches_fp16 [OF assms, of "length losses" 0 losses] one
    by (simp add: train_one_epoch_def)
qed

theorem fp16_accumulation_schedule_witness:
  "TRAIN_FP16 example_config \<and> TRAIN_ACCUMULATION_STEPS example_config = Some 2 \<and>
   train_one_epoch example_config [1, 2, 3] =
     Inr [ModelTrain, ZeroGrad,
          ScaledBackward (1 / 2),
          ScaledBackward 1, ScalerStep, ScalerUpdate, ZeroGrad,
          ScaledBackward (3 / 2), ScalerStep, ScalerUpdate, ZeroGrad]"
proof -
  have fp: "TRAIN_FP16 example_config"
    and acc: "TRAIN_ACCUMULATION_STEPS example_config = Some 2"
    by (simp_all add: example_config_def)
  from fp16_accumulation_schedule [OF fp, of "[1, 2, 3]"] acc
  have "train_one_epoch example_config [1, 2, 3] =
          Inr (ModelTrain # ZeroGrad #
               concat (map (\<lambda>(step, loss).
                   ScaledBackward (loss / real_of_int 2) #
                   (if (int step + 1) mod 2 = 0 \<or> step + 1 = length [1, 2, 3 :: real]
                    then [ScalerStep, ScalerUpdate, ZeroGrad] else []))
                 (enumerate 0 [1, 2, 3])))"
    by simp
  then show ?thesis using fp acc by simp
qed

subsection \<open>Full precision\<close>

lemma no_zero_grad_after_batches:
  "ZeroGrad \<notin> set (scheduler_events cfg epoch)"
  "validate_epoch cfg tenv epoch b = Inr (b', vevs) \<Longrightarrow> ZeroGrad \<notin> set vevs"
  by (auto simp: scheduler_events_def validate_epoch_def
      split: option.splits if_splits sum.splits prod.splits)

text \<open>
  Claim C9. With FP16 off, whatever \<open>ACCUMULATION_STEPS\<close> is, the training part of an
  epoch is: the gradients are zeroed once, then every batch sends its undivided loss
  through the backward pass and is followed by a step of the optimizer. No other zeroing
  of the gradients occurs in the epoch, neither between the steps nor in what follows
  the batches.
\<close>

theorem fp32_steps_every_batch:
  assumes "\<not> TRAIN_FP16 cfg"
  shows "train_one_epoch cfg losses =
           Inr (ModelTrain # ZeroGrad #
                concat (map (\<lambda>loss. [Backward loss, OptimizerStep]) losses)) \<and>
         (\<forall>tenv epoch b b' evs.
            train_epoch cfg tenv epoch b = Inr (b', evs) \<longrightarrow>
            (\<exists>rest. evs = ModelTrain # ZeroGrad #
                       concat (map (\<lambda>loss. [Backward loss, OptimizerStep])
                                 (batch_losses tenv epoch)) @ rest \<and>
                    ZeroGrad \<notin> set rest) \<and>
            filter (\<lambda>e. e = ZeroGrad) evs = [ZeroGrad] \<and>
            filter (\<lambda>e. e = OptimizerStep) evs =
              replicate (length (batch_losses tenv epoch)) OptimizerStep)"
proof (intro conjI allI impI)
  show one: "train_one_epoch cfg losses =
           Inr (ModelTrain # ZeroGrad #
                concat (map (\<lambda>loss. [Backward loss, OptimizerStep]) losses))" for losses
    using train_batches_fp32 [OF assms] by (simp add: train_one_epoch_def)
  fix tenv :: "'a train_env" and epoch b b' evs
  assume ep: "train_epoch cfg tenv epoch b = Inr (b', evs)"
  then obtain vevs where v: "validate_epoch cfg tenv epoch b = Inr (b', vevs)"
    and evs: "evs = (ModelTrain # ZeroGrad #
                concat (map (\<lambda>loss. [Backward loss, OptimizerStep]) (batch_losses tenv epoch))) @
                scheduler_events cfg epoch @ vevs"
    by (auto simp: train_epoch_def one split: sum.splits)
  have nz: "ZeroGrad \<notin> set (scheduler_events cfg epoch @ vevs)"
    using no_zero_grad_after_batches(1) no_zero_grad_after_batches(2) [OF v] by simp
  have no: "OptimizerStep \<notin> set (scheduler_events cfg epoch @ vevs)"
    using v by (auto simp: scheduler_events_def validate_epoch_def
        split: option.splits if_splits sum.splits prod.splits)
  show "\<exists>rest. evs = ModelTrain # ZeroGrad #
                       concat (map (\<lambda>loss. [Backward loss, OptimizerStep])
                                 (batch_losses tenv epoch)) @ rest \<and>
                    ZeroGrad \<notin> set rest"
    using evs nz by (intro exI [of _ "scheduler_events cfg epoch @ vevs"]) simp
  have fz: "filter (\<lambda>e. e = ZeroGrad) (concat (map (\<lambda>loss. [Backward loss, OptimizerStep]) ls)) = []"
    for ls by (induction ls) simp_all
  have fo: "filter (\<lambda>e. e = OptimizerStep) (concat (map (\<lambda>loss. [Backward loss, OptimizerStep]) ls)) =
              replicate (length ls) OptimizerStep"
    for ls by (induction ls) simp_all
  have rz: "filter (\<lambda>e. e = ZeroGrad) (scheduler_events cfg epoch @ vevs) = []"
    using nz by (auto simp: filter_empty_conv)
  have ro: "filter (\<lambda>e. e = OptimizerStep) (scheduler_events cfg epoch @ vevs) = []"
    using no by (auto simp: filter_empty_conv)
  show "filter (\<lambda>e. e = ZeroGrad) evs = [ZeroGrad]"
    unfolding evs using fz rz by simp
  show "filter (\<lambda>e. e = OptimizerStep) evs =
              replicate (length (batch_losses tenv epoch)) OptimizerStep"
    unfolding evs using fo ro by simp
qed

theorem fp32_steps_every_batch_witness:
  "\<not> TRAIN_FP16 (example_config\<lparr>TRAIN_FP16 := False\<rparr>) \<and>
   TRAIN_ACCUMULATION_STEPS (example_config\<lparr>TRAIN_FP16 := False\<rparr>) = Some 2 \<and>
   train_one_epoch (example_config\<lparr>TRAIN_FP16 := False\<rparr>) [1, 2, 3] =
     Inr [ModelTrain, ZeroGrad, Backward 1, OptimizerStep, Backward 2, OptimizerStep,
          Backward 3, OptimizerStep]"
proof -
  have fp: "\<not> TRAIN_FP16 (example_config\<lparr>TRAIN_FP16 := False\<rparr>)" by simp
  from fp32_steps_every_batch [OF fp, of "[1, 2, 3]", THEN conjunct1]
  show ?thesis by (simp add: example_config_def)
qed

subsection \<open>The lists of the validation\<close>

lemma class2ind_other:
  assumes "\<And>i v m. f (i, v) m = m(v \<mapsto> i)"
  shows "v \<notin> set cs \<Longrightarrow> fold f (enumerate k cs) m0 v = m0 v"
  by (induction cs arbitrary: k m0) (simp_all add: assms)

lemma class2ind_nth:
  assumes f: "\<And>i v m. f (i, v) m = m(v \<mapsto> i)"
  shows "distinct cs \<Longrightarrow> c < length cs \<Longrightarrow> fold f (enumerate k cs) m0 (cs ! c) = Some (k + c)"
proof (induction cs arbitrary: k m0 c)
  case Nil
  then show ?case by simp
next
  case (Cons x xs)
  show ?case
  proof (cases c)
    case 0
    then show ?thesis using Cons.prems by (simp add: f class2ind_other [of f, OF f])
  next
    case (Suc c')
    then show ?thesis using Cons.prems Cons.IH [of c' "Suc k"] by (simp add: f)
  qed
qed

lemma ind2class_distinct:
  "distinct cs \<Longrightarrow> c < length cs \<Longrightarrow> ind2class cs c = Some (cs ! c)"
  using class2ind_nth [of "\<lambda>(i, v) m. m(v \<mapsto> i)" cs c 0 Map.empty]
  by (simp add: ind2class_def class2ind_def)

lemma encode_output_ok:
  assumes "\<forall>c' < length out. i2c (c + c') = Some (cs ! (c + c'))"
  shows "encode_output i2c enc name c out res =
           Inr (res\<lparr> rles := rles res @ map enc out,
                     classes := classes res @ map (\<lambda>c'. cs ! (c + c')) [0..<length out],
                     image_names := image_names res @ replicate (length out) (basename name) \<rparr>)"
  using assms
proof (induction out arbitrary: c res)
  case Nil
  then show ?case by simp
next
  case (Cons segm out)
  have here: "i2c c = Some (cs ! c)" using Cons.prems by fastforce
  have rest: "\<forall>c' < length out. i2c (Suc c + c') = Some (cs ! (Suc c + c'))"
    using Cons.prems by fastforce
  have idx: "map (\<lambda>c'. cs ! (c + c')) [0..<Suc (length out)] =
             cs ! c # map (\<lambda>c'. cs ! (Suc c + c')) [0..<length out]"
    by (simp add: upt_conv_Cons map_Suc_upt [symmetric] del: upt_Suc)
  show ?case
    using Cons.IH [OF rest] here idx by (simp add: replicate_append_same del: upt_Suc)
qed

lemma encode_batch_ok:
  assumes "\<forall>(out, name) \<in> set pairs. length out = length cs"
      and "\<forall>c < length cs. i2c c = Some (cs ! c)"
  shows "encode_batch i2c enc pairs res =
           Inr (res\<lparr> rles := rles res @ concat (map (map enc) (map fst pairs)),
                     classes := classes res @ concat (map (\<lambda>p. cs) pairs),
                     image_names := image_names res @
                       concat (map (\<lambda>name. replicate (length cs) (basename name))
                                 (map snd pairs)) \<rparr>)"
  using assms(1)
proof (induction pairs arbitrary: res)
  case Nil
  then show ?case by simp
next
  case (Cons pair pairs)
  obtain out name where pair: "pair = (out, name)" by (cases pair)
  have len: "length out = length cs" using Cons.prems pair by simp
  have out: "encode_output i2c enc name 0 out res =
           Inr (res\<lparr> rles := rles res @ map enc out,
                     classes := classes res @ cs,
                     image_names := image_names res @ replicate (length cs) (basename name) \<rparr>)"
    using encode_output_ok [of out i2c 0 cs enc name res] assms(2) len by (simp add: map_nth)
  have rest: "\<forall>(out, name) \<in> set pairs. length out = length cs" using Cons.prems by simp
  show ?case unfolding pair by (simp add: out Cons.IH [OF rest])
qed

lemma batches_of_unfold:
  "batches_of b xs = (if b = 0 \<or> xs = [] then [] else take b xs # batches_of b (drop b xs))"
  by (rule batches_of.simps)

lemma concat_batches_of: "0 < b \<Longrightarrow> concat (batches_of b xs) = xs"
proof (induction b xs rule: batches_of.induct)
  case (1 b xs)
  show ?case
  proof (cases "xs = []")
    case True
    then show ?thesis by (subst batches_of_unfold) simp
  next
    case False
    then have "concat (batches_of b (drop b xs)) = drop b xs" using 1 by simp
    then show ?thesis using False "1.prems" by (subst batches_of_unfold) simp
  qed
qed

lemma validation_loop_sequential:
  fixes dl :: data_loader and cs :: "string list"
  defines "fn \<equiv> filenames (dataset dl)"
  assumes bs: "0 < batch_size dl"
      and shape: "\<forall>batch. length (predict batch) = length batch \<and>
                    (\<forall>out \<in> set (predict batch). length out = length cs)"
      and i2c: "\<forall>c < length cs. IND2CLASS (dataset dl) c = Some (cs ! c)"
  shows "a = step * batch_size dl \<Longrightarrow> n = length fn \<Longrightarrow>
         validation_loop mt predict dl step (batches_of (batch_size dl) [a..<n]) (dices, res) =
           Inr (dices @ map (\<lambda>batch. dice_coef mt (predict batch) batch)
                          (batches_of (batch_size dl) [a..<n]),
                res\<lparr> rles := rles res @
                       concat (map (map (encode_mask_to_rle mt))
                                 (concat (map predict (batches_of (batch_size dl) [a..<n])))),
                     classes := classes res @ concat (map (\<lambda>i. cs) [a..<n]),
                     image_names := image_names res @
                       concat (map (\<lambda>i. replicate (length cs) (basename (fn ! i))) [a..<n]) \<rparr>)"
proof (induction "n - a" arbitrary: a step dices res rule: less_induct)
  case less
  show ?case
  proof (cases "a < n")
    case False
    then have e: "[a..<n] = []" by simp
    have "batches_of (batch_size dl) ([] :: nat list) = []" by (subst batches_of_unfold) simp
    then show ?thesis unfolding e by simp
  next
    case True
    define b where "b = batch_size dl"
    define batch where "batch = [a..<min (a + b) n]"
    define a' where "a' = a + b"
    have b0: "0 < b" using bs by (simp add: b_def)
    have tk: "take b [a..<n] = batch" by (simp add: batch_def take_upt min_def)
    have dr: "drop b [a..<n] = [a'..<n]" by (simp add: a'_def drop_upt)
    have unf: "batches_of b [a..<n] = batch # batches_of b [a'..<n]"
      using True b0 by (subst batches_of_unfold) (simp add: tk a'_def)
    have names: "batch_filenames dl step = map (\<lambda>i. fn ! i) batch"
      using less.prems by (simp add: batch_filenames_def fn_def batch_def b_def add.commute)
    have plen: "length (predict batch) = length batch" using shape by simp
    have pairs: "\<forall>(out, name) \<in> set (zip (predict batch) (batch_filenames dl step)).
                   length out = length cs"
      using shape by (auto dest: set_zip_leftD)
    note enc = encode_batch_ok [OF pairs i2c, of "encode_mask_to_rle mt" res]
    have fst_zip: "map fst (zip (predict batch) (batch_filenames dl step)) = predict batch"
      using plen names by simp
    have snd_zip: "map snd (zip (predict batch) (batch_filenames dl step)) = map (\<lambda>i. fn ! i) batch"
      using plen names by simp
    have cls: "concat (map (\<lambda>p. cs) (zip (predict batch) (batch_filenames dl step))) =
               concat (map (\<lambda>i. cs) batch)"
      using plen names by (simp add: map_replicate_const)
    have split: "[a..<n] = batch @ [a'..<n]"
      using tk dr append_take_drop_id [of b "[a..<n]"] by simp
    have step': "a' = Suc step * b" using less.prems by (simp add: a'_def b_def)
    have "n - a' < n - a" using True b0 by (simp add: a'_def)
    note IH = less.hyps [OF this step' [unfolded b_def] less.prems(2)]
    show ?thesis
      unfolding b_def [symmetric] unf
      by (simp add: split enc fst_zip snd_zip cls IH [unfolded b_def [symmetric]] comp_def Let_def)
  qed
qed

lemma concat_uniform:
  assumes "\<forall>b \<in> set bl. length b = C"
  shows "length (concat bl) = length bl * C"
    and "i < length bl \<Longrightarrow> c < C \<Longrightarrow> concat bl ! (i * C + c) = bl ! i ! c"
  using assms
proof (induction bl arbitrary: i)
  case Nil
  {
    case 1
    show ?case by simp
  next
    case 2
    then show ?case by simp
  }
next
  case (Cons b bl)
  {
    case 1
    then show ?case using Cons.IH(1) by simp
  next
    case 2
    show ?case
    proof (cases i)
      case 0
      then show ?thesis using 2 by (simp add: nth_append)
    next
      case (Suc i')
      then have "concat bl ! (i' * C + c) = bl ! i' ! c" using 2 Cons.IH(2) by simp
      moreover have "i * C + c - C = i' * C + c" using Suc by simp
      ultimately show ?thesis using 2 Suc by (simp add: nth_append)
    qed
  }
qed

lemma length_outputs:
  assumes "\<forall>batch. length (predict batch) = length batch"
  shows "length (concat (map predict bl)) = length (concat bl)"
  using assms by (induction bl) simp_all

text \<open>
  Claim C7. For the validation loader as the program builds it (no shuffling: the sampler
  is \<open>0, 1, ..., n - 1\<close>; no batch dropped; a positive batch size) over a dataset with at
  least one entry and distinct class names, and a network that gives one output per image
  of the batch with one mask per class, \<open>validation\<close> returns, and the three lists of its
  \<open>result_rles\<close> have \<open>n * C\<close> entries each, \<open>n\<close> the number of dataset entries and \<open>C\<close> the
  number of classes. The batches taken together are the entries in their order, so the
  outputs of the batches, one after the other, are the outputs of entries \<open>0\<close> to
  \<open>n - 1\<close>; entry \<open>i * C + c\<close> of the lists is the RLE of mask \<open>c\<close> of the output of entry
  \<open>i\<close>, the class name \<open>IND2CLASS[c]\<close>, and the basename of \<open>filenames[i]\<close>.
\<close>

theorem validation_result_rles:
  assumes seq: "sampler dl = [0..<length (filenames (dataset dl))]"
      and keep: "\<not> drop_last dl"
      and bs: "0 < batch_size dl"
      and nonempty: "filenames (dataset dl) \<noteq> []"
      and i2c: "IND2CLASS (dataset dl) = ind2class (DATA_CLASSES (config (dataset dl)))"
      and dist: "distinct (DATA_CLASSES (config (dataset dl)))"
      and shape: "\<forall>batch. length (predict batch) = length batch \<and>
                    (\<forall>out \<in> set (predict batch).
                       length out = length (DATA_CLASSES (config (dataset dl))))"
      and dice: "\<forall>batch. \<forall>row \<in> set (dice_coef mt (predict batch) batch).
                    length row = length (DATA_CLASSES (config (dataset dl)))"
  shows "\<exists>avg_dice dice_dict res.
           validation mt predict dl = Inr (avg_dice, dice_dict, res) \<and>
           length (rles res) =
             length (filenames (dataset dl)) * length (DATA_CLASSES (config (dataset dl))) \<and>
           length (classes res) =
             length (filenames (dataset dl)) * length (DATA_CLASSES (config (dataset dl))) \<and>
           length (image_names res) =
             length (filenames (dataset dl)) * length (DATA_CLASSES (config (dataset dl))) \<and>
           concat (loader_batches dl) = [0..<length (filenames (dataset dl))] \<and>
           length (concat (map predict (loader_batches dl))) = length (filenames (dataset dl)) \<and>
           (\<forall>i < length (filenames (dataset dl)).
              \<forall>c < length (DATA_CLASSES (config (dataset dl))).
                rles res ! (i * length (DATA_CLASSES (config (dataset dl))) + c) =
                  encode_mask_to_rle mt (concat (map predict (loader_batches dl)) ! i ! c) \<and>
                IND2CLASS (dataset dl) c =
                  Some (classes res ! (i * length (DATA_CLASSES (config (dataset dl))) + c)) \<and>
                classes res ! (i * length (DATA_CLASSES (config (dataset dl))) + c) =
                  DATA_CLASSES (config (dataset dl)) ! c \<and>
                image_names res ! (i * length (DATA_CLASSES (config (dataset dl))) + c) =
                  basename (filenames (dataset dl) ! i))"
proof -
  define fn where "fn = filenames (dataset dl)"
  define n where "n = length fn"
  define cs where "cs = DATA_CLASSES (config (dataset dl))"
  define C where "C = length cs"
  define batches where "batches = batches_of (batch_size dl) [0..<n]"
  define outputs where "outputs = concat (map predict batches)"
  define R where
    "R = \<lparr> image_names = concat (map (\<lambda>i. replicate C (basename (fn ! i))) [0..<n]),
            classes = concat (map (\<lambda>i. cs) [0..<n]),
            rles = concat (map (map (encode_mask_to_rle mt)) outputs) \<rparr>"
  have lb: "loader_batches dl = batches"
    using seq keep by (simp add: loader_batches_def batches_def n_def fn_def)
  have cat: "concat batches = [0..<n]"
    using bs by (simp add: batches_def concat_batches_of)
  have lookup: "\<forall>c < length cs. IND2CLASS (dataset dl) c = Some (cs ! c)"
    using i2c dist by (simp add: cs_def ind2class_distinct)
  have shape': "\<forall>batch. length (predict batch) = length batch \<and>
                  (\<forall>out \<in> set (predict batch). length out = length cs)"
    using shape by (simp add: cs_def)
  have loop: "validation_loop mt predict dl 0 batches
                ([], \<lparr> image_names = [], classes = [], rles = [] \<rparr>) =
              Inr (map (\<lambda>batch. dice_coef mt (predict batch) batch) batches, R)"
    using validation_loop_sequential [OF bs shape' lookup, of 0 0 n mt "[]"
        "\<lparr> image_names = [], classes = [], rles = [] \<rparr>"]
    by (simp add: batches_def n_def fn_def R_def outputs_def C_def)
  have n0: "0 < n" using nonempty by (simp add: n_def fn_def)
  have ne: "batches \<noteq> []"
  proof
    assume "batches = []"
    then have "[0..<n] = []" using cat by simp
    then show False using n0 by simp
  qed
  have rows: "\<forall>r \<in> set (concat (map (\<lambda>batch. dice_coef mt (predict batch) batch) batches)).
                length r = C"
    using dice by (auto simp: C_def cs_def)
  then have tc: "torch_cat (map (\<lambda>batch. dice_coef mt (predict batch) batch) batches) =
                   Inr (concat (map (\<lambda>batch. dice_coef mt (predict batch) batch) batches))"
    using ne unfolding torch_cat_def Let_def
    by (metis (no_types, lifting) map_is_Nil_conv hd_in_set empty_iff list.set(1))
  have ret: "\<exists>avg_dice dice_dict. validation mt predict dl = Inr (avg_dice, dice_dict, R)"
    unfolding validation_def lb by (simp add: loop ne tc Let_def)
  \<comment> \<open>the three lists\<close>
  have out_len: "length outputs = n"
    using length_outputs [of predict batches] shape cat by (simp add: outputs_def)
  have out_C: "\<forall>out \<in> set outputs. length out = C"
    using shape' by (auto simp: outputs_def C_def)
  have rl: "length (rles R) = n * C"
    and rn: "\<And>i c. i < n \<Longrightarrow> c < C \<Longrightarrow>
               rles R ! (i * C + c) = encode_mask_to_rle mt (outputs ! i ! c)"
    using concat_uniform [of "map (map (encode_mask_to_rle mt)) outputs" C] out_C out_len
    by (simp_all add: R_def)
  have cl: "length (classes R) = n * C"
    and cn: "\<And>i c. i < n \<Longrightarrow> c < C \<Longrightarrow> classes R ! (i * C + c) = cs ! c"
    using concat_uniform [of "map (\<lambda>i. cs) [0..<n]" C]
    by (simp_all add: R_def C_def)
  have il: "length (image_names R) = n * C"
    and inn: "\<And>i c. i < n \<Longrightarrow> c < C \<Longrightarrow> image_names R ! (i * C + c) = basename (fn ! i)"
    using concat_uniform [of "map (\<lambda>i. replicate C (basename (fn ! i))) [0..<n]" C]
    by (simp_all add: R_def)
  from ret obtain avg_dice dice_dict where
    v: "validation mt predict dl = Inr (avg_dice, dice_dict, R)" by blast
  have "\<forall>i < n. \<forall>c < C.
          rles R ! (i * C + c) = encode_mask_to_rle mt (outputs ! i ! c) \<and>
          IND2CLASS (dataset dl) c = Some (classes R ! (i * C + c)) \<and>
          classes R ! (i * C + c) = cs ! c \<and>
          image_names R ! (i * C + c) = basename (fn ! i)"
    using rn cn inn lookup by (simp add: C_def)
  then show ?thesis
    using v rl cl il cat out_len
    unfolding lb outputs_def [symmetric] n_def [symmetric] fn_def [symmetric]
      C_def [symmetric] cs_def [symmetric]
    unfolding fn_def [symmetric] n_def [symmetric] cs_def [symmetric] C_def [symmetric]
    by blast
qed

lemma example_loader_valid:
  "sampler example_loader = [0..<length (filenames (dataset example_loader))]"
  "\<not> drop_last example_loader"
  "0 < batch_size example_loader"
  "filenames (dataset example_loader) \<noteq> []"
  "IND2CLASS (dataset example_loader) = ind2class (DATA_CLASSES (config (dataset example_loader)))"
  "distinct (DATA_CLASSES (config (dataset example_loader)))"
  "\<forall>batch. length (example_predict e batch) = length batch \<and>
     (\<forall>out \<in> set (example_predict e batch).
        length out = length (DATA_CLASSES (config (dataset example_loader))))"
  "\<forall>batch. \<forall>row \<in> set (dice_coef example_metrics (example_predict e batch) batch).
     length row = length (DATA_CLASSES (config (dataset example_loader)))"
  by (auto simp: example_loader_def example_config_def example_predict_def example_metrics_def
      upt_conv_Cons)

theorem validation_result_rles_witness:
  "\<exists>avg_dice dice_dict res.
     validation example_metrics (example_predict 2) example_loader =
       Inr (avg_dice, dice_dict, res) \<and>
     length (rles res) = 3 \<and> length (classes res) = 3 \<and> length (image_names res) = 3 \<and>
     rles res ! 2 = ''11'' \<and> classes res ! 2 = ''finger-1'' \<and> image_names res ! 2 = ''b.png''"
proof -
  from validation_result_rles [OF example_loader_valid, of 2]
  obtain avg_dice dice_dict res where
    v: "validation example_metrics (example_predict 2) example_loader =
          Inr (avg_dice, dice_dict, res)"
    and len: "length (rles res) =
          length (filenames (dataset example_loader)) *
          length (DATA_CLASSES (config (dataset example_loader)))"
        "length (classes res) =
          length (filenames (dataset example_loader)) *
          length (DATA_CLASSES (config (dataset example_loader)))"
        "length (image_names res) =
          length (filenames (dataset example_loader)) *
          length (DATA_CLASSES (config (dataset example_loader)))"
    and nth: "\<forall>i < length (filenames (dataset example_loader)).
              \<forall>c < length (DATA_CLASSES (config (dataset example_loader))).
                rles res ! (i * length (DATA_CLASSES (config (dataset example_loader))) + c) =
                  encode_mask_to_rle example_metrics
                    (concat (map (example_predict 2) (loader_batches example_loader)) ! i ! c) \<and>
                IND2CLASS (dataset example_loader) c =
                  Some (classes res ! (i * length (DATA_CLASSES (config (dataset example_loader))) + c)) \<and>
                classes res ! (i * length (DATA_CLASSES (config (dataset example_loader))) + c) =
                  DATA_CLASSES (config (dataset example_loader)) ! c \<and>
                image_names res ! (i * length (DATA_CLASSES (config (dataset example_loader))) + c) =
                  basename (filenames (dataset example_loader) ! i)"
    by blast
  have sizes: "length (filenames (dataset example_loader)) = 3"
    "length (DATA_CLASSES (config (dataset example_loader))) = 1"
    by (simp_all add: example_loader_def example_config_def)
  have out: "encode_mask_to_rle example_metrics
               (concat (map (example_predict 2) (loader_batches example_loader)) ! 2 ! 0) = ''11''"
    by code_simp
  have cls: "DATA_CLASSES (config (dataset example_loader)) ! 0 = ''finger-1''"
    by (simp add: example_loader_def example_config_def)
  have name: "basename (filenames (dataset example_loader) ! 2) = ''b.png''"
    by code_simp
  from nth [rule_format, of 2 0] have
    "rles res ! 2 = ''11'' \<and> classes res ! 2 = ''finger-1'' \<and> image_names res ! 2 = ''b.png''"
    unfolding sizes out cls name by simp
  then show ?thesis using v len unfolding sizes by auto
qed

subsection \<open>The best model\<close>

lemma train_step_no_save: "train_step cfg n step loss = Inr evs \<Longrightarrow> SaveModel \<notin> set evs"
  by (auto simp: train_step_def split: if_splits)

lemma train_batches_no_save:
  "train_batches cfg n step losses = Inr evs \<Longrightarrow> SaveModel \<notin> set evs"
proof (induction losses arbitrary: step evs)
  case Nil
  then show ?case by simp
next
  case (Cons loss losses)
  then show ?case
    by (auto split: sum.splits dest: train_step_no_save)
qed

lemma train_one_epoch_no_save:
  "train_one_epoch cfg losses = Inr evs \<Longrightarrow> SaveModel \<notin> set evs"
  by (auto simp: train_one_epoch_def split: sum.splits dest: train_batches_no_save)

lemma scheduler_no_save: "SaveModel \<notin> set (scheduler_events cfg epoch)"
  by (simp add: scheduler_events_def split: option.splits)

text \<open>One epoch, seen from the best model.\<close>

lemma train_epoch_best:
  assumes "train_epoch cfg tenv k b = Inr (b', evs)"
  shows "TRAIN_VAL_EVERY cfg \<noteq> 0"
    and "\<not> val_due cfg (Suc k) \<Longrightarrow> b' = b \<and> SaveModel \<notin> set evs"
    and "val_due cfg (Suc k) \<Longrightarrow>
           \<exists>class_dices rs. run_validation tenv (Suc k) = Inr (val_dice tenv (Suc k), class_dices, rs) \<and>
             (if best_dice b < val_dice tenv (Suc k)
              then b' = \<lparr> best_dice = val_dice tenv (Suc k), best_dice_epoch = Suc k,
                          best_rles = Some rs \<rparr> \<and> SaveModel \<in> set evs
              else b' = b \<and> SaveModel \<notin> set evs)"
proof -
  from assms obtain tevs vevs where
    t: "train_one_epoch cfg (batch_losses tenv k) = Inr tevs" and
    v: "validate_epoch cfg tenv k b = Inr (b', vevs)" and
    evs: "evs = tevs @ scheduler_events cfg k @ vevs"
    by (auto simp: train_epoch_def split: sum.splits)
  have ns: "SaveModel \<notin> set (tevs @ scheduler_events cfg k)"
    using train_one_epoch_no_save [OF t] scheduler_no_save by simp
  show "TRAIN_VAL_EVERY cfg \<noteq> 0"
    using v by (auto simp: validate_epoch_def split: if_splits)
  show "b' = b \<and> SaveModel \<notin> set evs" if "\<not> val_due cfg (Suc k)"
    using v that ns unfolding evs
    by (auto simp: validate_epoch_def val_due_def add.commute split: if_splits)
  show "\<exists>class_dices rs. run_validation tenv (Suc k) = Inr (val_dice tenv (Suc k), class_dices, rs) \<and>
             (if best_dice b < val_dice tenv (Suc k)
              then b' = \<lparr> best_dice = val_dice tenv (Suc k), best_dice_epoch = Suc k,
                          best_rles = Some rs \<rparr> \<and> SaveModel \<in> set evs
              else b' = b \<and> SaveModel \<notin> set evs)" if "val_due cfg (Suc k)"
    using v that ns unfolding evs
    by (auto simp: validate_epoch_def val_due_def val_dice_def add.commute
        split: if_splits sum.splits prod.splits)
qed

lemma best_inv_nonneg: "best_inv cfg tenv k b \<Longrightarrow> 0 \<le> best_dice b"
  by (auto simp: best_inv_def split: option.splits)

lemma best_inv_epoch_dice:
  "best_inv cfg tenv k b \<Longrightarrow> best_rles b = Some rs \<Longrightarrow>
   val_dice tenv (best_dice_epoch b) = best_dice b"
  by (auto simp: best_inv_def val_dice_def)

lemma train_loop_Suc:
  assumes "train_loop cfg tenv (Suc k) = Inr (b', hist')"
  obtains b hist evs where
    "train_loop cfg tenv k = Inr (b, hist)"
    "train_epoch cfg tenv k b = Inr (b', evs)"
    "hist' = hist @ [evs]"
  using assms by (auto split: sum.splits)

lemma best_inv_step:
  assumes inv: "best_inv cfg tenv k b"
      and ep: "train_epoch cfg tenv k b = Inr (b', evs)"
  shows "best_inv cfg tenv (Suc k) b'"
proof (cases "val_due cfg (Suc k)")
  case False
  then have same: "b' = b" using train_epoch_best(2) [OF ep] by simp
  have "\<forall>e \<le> Suc k. val_due cfg e \<longrightarrow> val_dice tenv e \<le> best_dice b"
    using inv False by (auto simp: best_inv_def le_Suc_eq)
  then show ?thesis using inv unfolding same best_inv_def
    by (auto split: option.splits)
next
  case True
  define d where "d = val_dice tenv (Suc k)"
  from train_epoch_best(3) [OF ep True] obtain class_dices rs where
    rv: "run_validation tenv (Suc k) = Inr (d, class_dices, rs)" and
    upd: "if best_dice b < d
          then b' = \<lparr> best_dice = d, best_dice_epoch = Suc k, best_rles = Some rs \<rparr>
          else b' = b"
    unfolding d_def by (auto split: if_splits)
  have below: "\<forall>e \<le> k. val_due cfg e \<longrightarrow> val_dice tenv e \<le> best_dice b"
    using inv by (simp add: best_inv_def)
  show ?thesis
  proof (cases "best_dice b < d")
    case less: True
    then have b': "b' = \<lparr> best_dice = d, best_dice_epoch = Suc k, best_rles = Some rs \<rparr>"
      using upd by simp
    have pos: "0 < d" using best_inv_nonneg [OF inv] less by simp
    have "\<forall>e \<le> Suc k. val_due cfg e \<longrightarrow> val_dice tenv e \<le> d"
      using below less by (auto simp: le_Suc_eq d_def)
    moreover have "\<forall>e' < Suc k. val_due cfg e' \<longrightarrow> val_dice tenv e' < d"
      using below less by (auto simp: less_Suc_eq_le)
    ultimately show ?thesis
      unfolding b' best_inv_def using pos True rv by simp
  next
    case notless: False
    then have same: "b' = b" using upd by simp
    have "\<forall>e \<le> Suc k. val_due cfg e \<longrightarrow> val_dice tenv e \<le> best_dice b"
      using below notless by (auto simp: le_Suc_eq d_def)
    then show ?thesis using inv unfolding same best_inv_def
      by (auto split: option.splits)
  qed
qed

lemma train_loop_inv:
  "train_loop cfg tenv k = Inr (b, hist) \<Longrightarrow> best_inv cfg tenv k b \<and> length hist = k"
proof (induction k arbitrary: b hist)
  case 0
  then show ?case by (auto simp: best_inv_def val_due_def)
next
  case (Suc k)
  from Suc.prems obtain b0 hist0 evs where
    l: "train_loop cfg tenv k = Inr (b0, hist0)" and
    e: "train_epoch cfg tenv k b0 = Inr (b, evs)" and
    h: "hist = hist0 @ [evs]"
    by (rule train_loop_Suc)
  from Suc.IH [OF l] best_inv_step [OF _ e] h show ?case by simp
qed

lemma train_loop_mono:
  "k \<le> k' \<Longrightarrow> train_loop cfg tenv k' = Inr (b', hist') \<Longrightarrow>
   \<exists>b. train_loop cfg tenv k = Inr (b, take k hist') \<and> best_dice b \<le> best_dice b'"
proof (induction k' arbitrary: b' hist')
  case 0
  then show ?case by simp
next
  case (Suc k')
  from Suc.prems(2) obtain b0 hist0 evs where
    l: "train_loop cfg tenv k' = Inr (b0, hist0)" and
    e: "train_epoch cfg tenv k' b0 = Inr (b', evs)" and
    h: "hist' = hist0 @ [evs]"
    by (rule train_loop_Suc)
  have len: "length hist0 = k'" using train_loop_inv [OF l] by simp
  have up: "best_dice b0 \<le> best_dice b'"
    using train_epoch_best(2,3) [OF e] by (cases "val_due cfg (Suc k')") (auto split: if_splits)
  show ?case
  proof (cases "k = Suc k'")
    case True
    then show ?thesis using Suc.prems(2) h len by simp
  next
    case False
    then have "k \<le> k'" using Suc.prems(1) by simp
    from Suc.IH [OF this l] obtain b where
      "train_loop cfg tenv k = Inr (b, take k hist0)" "best_dice b \<le> best_dice b0" by blast
    then show ?thesis using up h len \<open>k \<le> k'\<close> by auto
  qed
qed

lemma improves_iff:
  assumes inv: "best_inv cfg tenv k b"
  shows "best_dice b < val_dice tenv (Suc k) \<longleftrightarrow>
         exceeds_previous cfg tenv (Suc k) \<and> 0 < val_dice tenv (Suc k)"
proof
  assume less: "best_dice b < val_dice tenv (Suc k)"
  have "\<forall>e \<le> k. val_due cfg e \<longrightarrow> val_dice tenv e \<le> best_dice b"
    using inv by (simp add: best_inv_def)
  then have "exceeds_previous cfg tenv (Suc k)"
    using less by (auto simp: exceeds_previous_def less_Suc_eq_le)
  then show "exceeds_previous cfg tenv (Suc k) \<and> 0 < val_dice tenv (Suc k)"
    using best_inv_nonneg [OF inv] less by simp
next
  assume r: "exceeds_previous cfg tenv (Suc k) \<and> 0 < val_dice tenv (Suc k)"
  show "best_dice b < val_dice tenv (Suc k)"
  proof (cases "best_rles b")
    case None
    then show ?thesis using inv r by (simp add: best_inv_def)
  next
    case (Some rs)
    then have "best_dice_epoch b < Suc k" "val_due cfg (best_dice_epoch b)"
      using inv by (simp_all add: best_inv_def)
    then have "val_dice tenv (best_dice_epoch b) < val_dice tenv (Suc k)"
      using r by (simp add: exceeds_previous_def)
    then show ?thesis using best_inv_epoch_dice [OF inv Some] by simp
  qed
qed

lemma validation_loop_dices:
  "validation_loop mt predict dl step batches (dices, res) = Inr (dices', res') \<Longrightarrow>
   dices' = dices @ map (\<lambda>batch. dice_coef mt (predict batch) batch) batches"
proof (induction batches arbitrary: step dices res)
  case Nil
  then show ?case by simp
next
  case (Cons batch batches)
  from Cons.prems obtain res0 where
    "validation_loop mt predict dl (Suc step) batches
       (dices @ [dice_coef mt (predict batch) batch], res0) = Inr (dices', res')"
    by (auto simp: Let_def split: sum.splits)
  from Cons.IH [OF this] show ?case by simp
qed

lemma validation_avg_dice:
  assumes "validation mt predict dl = Inr (avg_dice, dice_dict, res)"
  shows "avg_dice =
           mean (mean_dim0 (concat (map (\<lambda>batch. dice_coef mt (predict batch) batch)
                                      (loader_batches dl))))"
  using assms validation_loop_dices [of mt predict dl 0 "loader_batches dl" "[]"]
  by (auto simp: validation_def torch_cat_def Let_def split: sum.splits if_splits prod.splits)

text \<open>
  Claim C6, amended. In a run of \<open>train\<close> that ends without an exception, \<open>best_dice\<close>
  never decreases from one epoch to a later one. At a validation epoch the best model
  (dice, epoch and lists) is replaced and the checkpoint saved exactly when the average
  dice of the epoch strictly exceeds every average dice observed before and the initial
  \<open>0\<close>; otherwise the best model stays as it was and nothing is saved. If some validation
  gave a positive average dice, the CSV written at the end holds the lists of the first
  validation epoch whose average dice is the highest of the run; if none did, no CSV is
  written. The average dice that \<open>validation\<close> returns is the mean over the classes of
  the mean, over the rows of coefficients of all validation images, of the class's
  column.
\<close>

theorem best_model_tracking:
  assumes run: "train cfg tenv = Inr (b, hist, final)"
  shows
    "(\<forall>k k'. k \<le> k' \<longrightarrow> k' \<le> TRAIN_EPOCHS cfg \<longrightarrow>
        (\<exists>bk bk'. train_loop cfg tenv k = Inr (bk, take k hist) \<and>
                  train_loop cfg tenv k' = Inr (bk', take k' hist) \<and>
                  best_dice bk \<le> best_dice bk')) \<and>
     (\<forall>e. val_due cfg e \<longrightarrow> e \<le> TRAIN_EPOCHS cfg \<longrightarrow>
        (\<exists>prev cur class_dices rs.
           train_loop cfg tenv (e - 1) = Inr (prev, take (e - 1) hist) \<and>
           train_loop cfg tenv e = Inr (cur, take e hist) \<and>
           run_validation tenv e = Inr (val_dice tenv e, class_dices, rs) \<and>
           (if exceeds_previous cfg tenv e \<and> 0 < val_dice tenv e
            then cur = \<lparr> best_dice = val_dice tenv e, best_dice_epoch = e, best_rles = Some rs \<rparr> \<and>
                 SaveModel \<in> set (hist ! (e - 1))
            else cur = prev \<and> SaveModel \<notin> set (hist ! (e - 1))))) \<and>
     (if \<exists>e \<le> TRAIN_EPOCHS cfg. val_due cfg e \<and> 0 < val_dice tenv e
      then \<exists>e class_dices rs swa.
             e \<le> TRAIN_EPOCHS cfg \<and> val_due cfg e \<and>
             run_validation tenv e = Inr (val_dice tenv e, class_dices, rs) \<and>
             (\<forall>e' \<le> TRAIN_EPOCHS cfg. val_due cfg e' \<longrightarrow> val_dice tenv e' \<le> val_dice tenv e) \<and>
             (\<forall>e' < e. val_due cfg e' \<longrightarrow> val_dice tenv e' < val_dice tenv e) \<and>
             final = SaveCsv rs e # swa \<and> (\<forall>rs' e'. SaveCsv rs' e' \<notin> set swa)
      else \<forall>rs' e'. SaveCsv rs' e' \<notin> set final) \<and>
     (\<forall>e avg_dice dice_dict res.
        run_validation tenv e = Inr (avg_dice, dice_dict, res) \<longrightarrow>
        avg_dice =
          mean (map (\<lambda>c. mean (map (\<lambda>row. row ! c)
                       (concat (map (\<lambda>batch. dice_coef (metrics tenv) (predict_at tenv e batch) batch)
                                  (loader_batches (val_loader tenv))))))
                  [0..<(case concat (map (\<lambda>batch. dice_coef (metrics tenv) (predict_at tenv e batch) batch)
                                       (loader_batches (val_loader tenv))) of
                          [] \<Rightarrow> 0 | r # _ \<Rightarrow> length r)]))"
proof (intro conjI)
  define E where "E = TRAIN_EPOCHS cfg"
  define swa where "swa = (case TRAIN_SWA_START cfg of None \<Rightarrow> [] | Some _ \<Rightarrow> [SwaUpdateBn, SwaSave])"
  from run have loop: "train_loop cfg tenv E = Inr (b, hist)"
    and final: "final = (case best_rles b of None \<Rightarrow> [] | Some rs \<Rightarrow> [SaveCsv rs (best_dice_epoch b)]) @ swa"
    by (auto simp: train_def E_def swa_def split: sum.splits)
  have inv: "best_inv cfg tenv E b" and len: "length hist = E"
    using train_loop_inv [OF loop] by simp_all
  have noswa: "\<forall>rs' e'. SaveCsv rs' e' \<notin> set swa"
    by (simp add: swa_def split: option.splits)
  have prefix: "\<exists>bk. train_loop cfg tenv k = Inr (bk, take k hist)" if "k \<le> E" for k
    using train_loop_mono [OF that loop] by blast
  show "\<forall>k k'. k \<le> k' \<longrightarrow> k' \<le> TRAIN_EPOCHS cfg \<longrightarrow>
        (\<exists>bk bk'. train_loop cfg tenv k = Inr (bk, take k hist) \<and>
                  train_loop cfg tenv k' = Inr (bk', take k' hist) \<and>
                  best_dice bk \<le> best_dice bk')"
  proof (intro allI impI)
    fix k k' assume kk: "k \<le> k'" "k' \<le> TRAIN_EPOCHS cfg"
    then obtain bk' where l': "train_loop cfg tenv k' = Inr (bk', take k' hist)"
      using prefix by (auto simp: E_def)
    from train_loop_mono [OF kk(1) l'] obtain bk where
      "train_loop cfg tenv k = Inr (bk, take k (take k' hist))" "best_dice bk \<le> best_dice bk'"
      by blast
    then show "\<exists>bk bk'. train_loop cfg tenv k = Inr (bk, take k hist) \<and>
                  train_loop cfg tenv k' = Inr (bk', take k' hist) \<and>
                  best_dice bk \<le> best_dice bk'"
      using l' kk(1) by (auto simp: min_def)
  qed
  show "\<forall>e. val_due cfg e \<longrightarrow> e \<le> TRAIN_EPOCHS cfg \<longrightarrow>
        (\<exists>prev cur class_dices rs.
           train_loop cfg tenv (e - 1) = Inr (prev, take (e - 1) hist) \<and>
           train_loop cfg tenv e = Inr (cur, take e hist) \<and>
           run_validation tenv e = Inr (val_dice tenv e, class_dices, rs) \<and>
           (if exceeds_previous cfg tenv e \<and> 0 < val_dice tenv e
            then cur = \<lparr> best_dice = val_dice tenv e, best_dice_epoch = e, best_rles = Some rs \<rparr> \<and>
                 SaveModel \<in> set (hist ! (e - 1))
            else cur = prev \<and> SaveModel \<notin> set (hist ! (e - 1))))"
  proof (intro allI impI)
    fix e assume due: "val_due cfg e" and le: "e \<le> TRAIN_EPOCHS cfg"
    then obtain k where e: "e = Suc k" by (cases e) (auto simp: val_due_def)
    from prefix [of e] le obtain cur where
      lc: "train_loop cfg tenv (Suc k) = Inr (cur, take (Suc k) hist)"
      by (auto simp: E_def e)
    then obtain prev hist0 evs where
      lp: "train_loop cfg tenv k = Inr (prev, hist0)" and
      ep: "train_epoch cfg tenv k prev = Inr (cur, evs)" and
      h: "take (Suc k) hist = hist0 @ [evs]"
      by (rule train_loop_Suc)
    have pinv: "best_inv cfg tenv k prev" and l0: "length hist0 = k"
      using train_loop_inv [OF lp] by simp_all
    have h0: "hist0 = take k hist"
    proof -
      have "take k (take (Suc k) hist) = take k (hist0 @ [evs])" using h by simp
      then show ?thesis using l0 by (simp add: min_def)
    qed
    have "take (Suc k) hist ! k = evs" using h l0 by (simp add: nth_append)
    then have hk: "hist ! k = evs" by simp
    from train_epoch_best(3) [OF ep] due obtain class_dices rs where
      rv: "run_validation tenv (Suc k) = Inr (val_dice tenv (Suc k), class_dices, rs)" and
      upd: "if best_dice prev < val_dice tenv (Suc k)
            then cur = \<lparr> best_dice = val_dice tenv (Suc k), best_dice_epoch = Suc k,
                          best_rles = Some rs \<rparr> \<and> SaveModel \<in> set evs
            else cur = prev \<and> SaveModel \<notin> set evs"
      unfolding e by blast
    show "\<exists>prev cur class_dices rs.
           train_loop cfg tenv (e - 1) = Inr (prev, take (e - 1) hist) \<and>
           train_loop cfg tenv e = Inr (cur, take e hist) \<and>
           run_validation tenv e = Inr (val_dice tenv e, class_dices, rs) \<and>
           (if exceeds_previous cfg tenv e \<and> 0 < val_dice tenv e
            then cur = \<lparr> best_dice = val_dice tenv e, best_dice_epoch = e, best_rles = Some rs \<rparr> \<and>
                 SaveModel \<in> set (hist ! (e - 1))
            else cur = prev \<and> SaveModel \<notin> set (hist ! (e - 1)))"
      using lp lc rv upd unfolding e h0 hk [symmetric] improves_iff [OF pinv]
      by (intro exI [of _ prev] exI [of _ cur] exI [of _ class_dices] exI [of _ rs]) simp
  qed
  have below: "\<forall>e \<le> E. val_due cfg e \<longrightarrow> val_dice tenv e \<le> best_dice b"
    using inv by (simp add: best_inv_def)
  show "if \<exists>e \<le> TRAIN_EPOCHS cfg. val_due cfg e \<and> 0 < val_dice tenv e
      then \<exists>e class_dices rs swa.
             e \<le> TRAIN_EPOCHS cfg \<and> val_due cfg e \<and>
             run_validation tenv e = Inr (val_dice tenv e, class_dices, rs) \<and>
             (\<forall>e' \<le> TRAIN_EPOCHS cfg. val_due cfg e' \<longrightarrow> val_dice tenv e' \<le> val_dice tenv e) \<and>
             (\<forall>e' < e. val_due cfg e' \<longrightarrow> val_dice tenv e' < val_dice tenv e) \<and>
             final = SaveCsv rs e # swa \<and> (\<forall>rs' e'. SaveCsv rs' e' \<notin> set swa)
      else \<forall>rs' e'. SaveCsv rs' e' \<notin> set final"
  proof (cases "best_rles b")
    case None
    then have "best_dice b = 0" using inv by (simp add: best_inv_def)
    then have nex: "\<not> (\<exists>e \<le> TRAIN_EPOCHS cfg. val_due cfg e \<and> 0 < val_dice tenv e)"
      using below by (fastforce simp: E_def)
    have nosave: "\<forall>rs' e'. SaveCsv rs' e' \<notin> set final"
      using None noswa by (simp add: final)
    show ?thesis by (subst if_not_P [OF nex]) (rule nosave)
  next
    case (Some rs)
    define e where "e = best_dice_epoch b"
    have d: "val_dice tenv e = best_dice b"
      using best_inv_epoch_dice [OF inv Some] by (simp add: e_def)
    from inv Some obtain class_dices where
      pos: "0 < best_dice b" and le: "e \<le> E" and due: "val_due cfg e" and
      rv: "run_validation tenv e = Inr (best_dice b, class_dices, rs)" and
      first: "\<forall>e' < e. val_due cfg e' \<longrightarrow> val_dice tenv e' < best_dice b"
      by (auto simp: best_inv_def e_def)
    have ex: "\<exists>e \<le> TRAIN_EPOCHS cfg. val_due cfg e \<and> 0 < val_dice tenv e"
      using le due pos d by (auto simp: E_def)
    have fin: "final = SaveCsv rs e # swa" using Some by (simp add: final e_def)
    have saved: "\<exists>e class_dices rs swa.
             e \<le> TRAIN_EPOCHS cfg \<and> val_due cfg e \<and>
             run_validation tenv e = Inr (val_dice tenv e, class_dices, rs) \<and>
             (\<forall>e' \<le> TRAIN_EPOCHS cfg. val_due cfg e' \<longrightarrow> val_dice tenv e' \<le> val_dice tenv e) \<and>
             (\<forall>e' < e. val_due cfg e' \<longrightarrow> val_dice tenv e' < val_dice tenv e) \<and>
             final = SaveCsv rs e # swa \<and> (\<forall>rs' e'. SaveCsv rs' e' \<notin> set swa)"
      using le due rv below first fin noswa unfolding d [symmetric] E_def
      by (intro exI [of _ e] exI [of _ class_dices] exI [of _ rs] exI [of _ swa]) simp
    show ?thesis by (subst if_P [OF ex]) (rule saved)
  qed
  show "\<forall>e avg_dice dice_dict res.
        run_validation tenv e = Inr (avg_dice, dice_dict, res) \<longrightarrow>
        avg_dice =
          mean (map (\<lambda>c. mean (map (\<lambda>row. row ! c)
                       (concat (map (\<lambda>batch. dice_coef (metrics tenv) (predict_at tenv e batch) batch)
                                  (loader_batches (val_loader tenv))))))
                  [0..<(case concat (map (\<lambda>batch. dice_coef (metrics tenv) (predict_at tenv e batch) batch)
                                       (loader_batches (val_loader tenv))) of
                          [] \<Rightarrow> 0 | r # _ \<Rightarrow> length r)])"
    using validation_avg_dice unfolding run_validation_def mean_dim0_def by blast
qed

lemma example_validations:
  "run_validation example_train_env 1 = Inr (0, [(''val/finger-1'', 0)], example_result 1)"
  "run_validation example_train_env 2 = Inr (1 / 2, [(''val/finger-1'', 1 / 2)], example_result 2)"
  "run_validation example_train_env 3 = Inr (1 / 4, [(''val/finger-1'', 1 / 4)], example_result 3)"
  by code_simp+

lemma example_first_epoch:
  "train_loop example_config example_train_env 1 =
     Inr (\<lparr> best_dice = 0, best_dice_epoch = 0, best_rles = None \<rparr>,
          [example_training_events @ [Validation 1]])"
  by code_simp

lemma example_run:
  "train example_config example_train_env =
     Inr (\<lparr> best_dice = 1 / 2, best_dice_epoch = 2, best_rles = Some (example_result 2) \<rparr>,
          [example_training_events @ [Validation 1],
           example_training_events @ [Validation 2, SaveModel],
           example_training_events @ [Validation 3]],
          [SaveCsv (example_result 2) 2])"
  by code_simp

lemma example_val_dice:
  "val_dice example_train_env 1 = 0"
  "val_dice example_train_env 2 = 1 / 2"
  "val_dice example_train_env 3 = 1 / 4"
  unfolding val_dice_def example_validations by simp_all

lemma example_val_due: "val_due example_config e \<longleftrightarrow> 0 < e"
  by (simp add: val_due_def example_config_def)

text \<open>
  The claim as it is worded fails on a first validation whose average dice is \<open>0\<close>:
  nothing was observed before it, so it exceeds every average dice observed before, yet
  \<open>best_dice < dice\<close> is \<open>0 < 0\<close> and neither the best model nor the checkpoint is
  written.
\<close>

theorem best_model_tracking_counterexample:
  "val_due example_config 1 \<and>
   exceeds_previous example_config example_train_env 1 \<and>
   train_loop example_config example_train_env 1 =
     Inr (\<lparr> best_dice = 0, best_dice_epoch = 0, best_rles = None \<rparr>,
          [example_training_events @ [Validation 1]]) \<and>
   SaveModel \<notin> set (example_training_events @ [Validation 1])"
  using example_first_epoch
  by (simp add: example_val_due exceeds_previous_def example_training_events_def)

theorem best_model_tracking_witness:
  "train example_config example_train_env =
     Inr (\<lparr> best_dice = 1 / 2, best_dice_epoch = 2, best_rles = Some (example_result 2) \<rparr>,
          [example_training_events @ [Validation 1],
           example_training_events @ [Validation 2, SaveModel],
           example_training_events @ [Validation 3]],
          [SaveCsv (example_result 2) 2]) \<and>
   val_due example_config 2 \<and> 2 \<le> TRAIN_EPOCHS example_config \<and>
   exceeds_previous example_config example_train_env 2 \<and>
   0 < val_dice example_train_env 2 \<and>
   SaveModel \<in> set ([example_training_events @ [Validation 1],
                      example_training_events @ [Validation 2, SaveModel],
                      example_training_events @ [Validation 3]] ! (2 - 1))"
proof -
  have due: "val_due example_config 2" by (simp add: example_val_due)
  have le: "2 \<le> TRAIN_EPOCHS example_config" by (simp add: example_config_def)
  have ex: "exceeds_previous example_config example_train_env 2"
    unfolding exceeds_previous_def
  proof (intro allI impI)
    fix e' :: nat assume "e' < 2" "val_due example_config e'"
    then have e': "e' = 1" by (simp add: example_val_due)
    show "val_dice example_train_env e' < val_dice example_train_env 2"
      unfolding e' example_val_dice by simp
  qed
  have pos: "0 < val_dice example_train_env 2" by (simp add: example_val_dice)
  from best_model_tracking [OF example_run, THEN conjunct2, THEN conjunct1, rule_format, OF due le]
  have "SaveModel \<in> set ([example_training_events @ [Validation 1],
                      example_training_events @ [Validation 2, SaveModel],
                      example_training_events @ [Validation 3]] ! (2 - 1))"
    using ex pos by auto
  then show ?thesis using example_run due le ex pos by simp
qed

end
